theory Spec2Isabelle
  imports Main "HOL-Library.AList"
begin

section \<open>Data model\<close>

text \<open>
  A buffer position and an editor \<open>Range\<close> object, as \<open>marker.getBufferRange()\<close>
  returns it: \<open>{start: {row, column}, end: {row, column}}\<close>. Rows and columns are
  JavaScript numbers holding integers. The field \<open>end\<close> is written \<open>endp\<close>.
\<close>

record point =
  row :: int
  column :: int

record range =
  start :: point
  endp :: point

text \<open>
  The object literals that \<open>foldNonSelected\<close> pushes on \<open>this.hideCandids\<close>. Their end
  column is read from \<open>rowLengths[...]\<close>; reading a JavaScript array outside its bounds
  gives \<open>undefined\<close>, which is \<open>None\<close> here.
\<close>

record candid_point =
  crow :: int
  ccolumn :: "int option"

record candid =
  cstart :: candid_point
  cend :: candid_point

section \<open>The complement computation of \<open>foldNonSelected\<close>\<close>

text \<open>\<open>rowLengths[i]\<close>: the element, or \<open>undefined\<close> outside the array.\<close>

definition at_index :: "int list \<Rightarrow> int \<Rightarrow> int option" where
  "at_index rowLengths i =
     (if 0 \<le> i \<and> i < int (length rowLengths) then Some (rowLengths ! nat i) else None)"

definition LAST_LINE :: "int list \<Rightarrow> int" where
  "LAST_LINE rowLengths = int (length rowLengths) - 1"

definition LAST_RANGE :: "range list \<Rightarrow> int" where
  "LAST_RANGE ranges = int (length ranges) - 1"

text \<open>Lines 200-203: the rows before the first highlighted range.\<close>

definition pushRowsBefore :: "range list \<Rightarrow> int list \<Rightarrow> candid list \<Rightarrow> candid list" where
  "pushRowsBefore ranges rowLengths hc =
     (if row (start (ranges ! 0)) \<noteq> 0 then
        (let rowBeforeSelection = row (start (ranges ! 0)) - 1 in
         hc @ [\<lparr>cstart = \<lparr>crow = 0, ccolumn = Some 0\<rparr>,
                 cend = \<lparr>crow = rowBeforeSelection,
                         ccolumn = at_index rowLengths rowBeforeSelection\<rparr>\<rparr>])
      else hc)"

text \<open>
  Lines 205-215: the loop \<open>for (let i=1; i<LAST_RANGE+1; i++)\<close> over the adjacent pairs
  \<open>ranges[i-1]\<close>, \<open>ranges[i]\<close>, pushing on the accumulated list.
\<close>

function gapLoop :: "nat \<Rightarrow> range list \<Rightarrow> int list \<Rightarrow> candid list \<Rightarrow> candid list" where
  "gapLoop i ranges rowLengths hc =
     (if int i < LAST_RANGE ranges + 1 then
        (let range1 = ranges ! (i - 1);
             range2 = ranges ! i;
             startRow = row (endp range1) + 1;
             startCol = 0;
             endRow = row (start range2) - 1;
             endCol = at_index rowLengths endRow
         in gapLoop (i + 1) ranges rowLengths
              (if startRow \<le> endRow then
                 hc @ [\<lparr>cstart = \<lparr>crow = startRow, ccolumn = Some startCol\<rparr>,
                         cend = \<lparr>crow = endRow, ccolumn = endCol\<rparr>\<rparr>]
               else hc))
      else hc)"
  by pat_completeness auto
termination
  by (relation "measure (\<lambda>(i, ranges, rowLengths, hc). length ranges - i)")
     (auto simp: LAST_RANGE_def)

text \<open>Lines 217-220: the rows after the last highlighted range.\<close>

definition pushRowsAfter :: "range list \<Rightarrow> int list \<Rightarrow> candid list \<Rightarrow> candid list" where
  "pushRowsAfter ranges rowLengths hc =
     (if row (endp (ranges ! nat (LAST_RANGE ranges))) \<noteq> LAST_LINE rowLengths then
        (let rowAfterSelection = row (endp (ranges ! nat (LAST_RANGE ranges))) + 1 in
         hc @ [\<lparr>cstart = \<lparr>crow = rowAfterSelection, ccolumn = Some 0\<rparr>,
                 cend = \<lparr>crow = LAST_LINE rowLengths,
                         ccolumn = at_index rowLengths (LAST_LINE rowLengths)\<rparr>\<rparr>])
      else hc)"

text \<open>
  Lines 196-220, the body under the guard \<open>ranges.length > 0\<close>: the three pushes, in
  order, on the list \<open>hc\<close> that \<open>this.hideCandids\<close> holds.
\<close>

definition pushHideCandids :: "range list \<Rightarrow> int list \<Rightarrow> candid list \<Rightarrow> candid list" where
  "pushHideCandids ranges rowLengths hc =
     pushRowsAfter ranges rowLengths
       (gapLoop 1 ranges rowLengths
          (pushRowsBefore ranges rowLengths hc))"

text \<open>
  The value of \<open>this.hideCandids\<close> that \<open>foldNonSelected\<close> reaches from the collected
  \<open>ranges\<close> and the \<open>rowLengths\<close> of the buffer: it starts as \<open>[]\<close> (line 182) and is
  only pushed on under the guard \<open>ranges.length > 0\<close> (line 195).
\<close>

definition computeHideCandids :: "range list \<Rightarrow> int list \<Rightarrow> candid list" where
  "computeHideCandids ranges rowLengths =
     (if length ranges > 0 then pushHideCandids ranges rowLengths [] else [])"

text \<open>
  \<open>editor.buffer.getText().split('\n')\<close>: the lines of the text. The result is never
  empty: the empty text has the one line \<open>''\<close>.
\<close>

fun split_newline :: "string \<Rightarrow> string list" where
  "split_newline [] = [[]]"
| "split_newline (c # cs) =
     (if c = CHR 0x0A then [] # split_newline cs
      else (case split_newline cs of
              [] \<Rightarrow> [[c]]
            | l # ls \<Rightarrow> (c # l) # ls))"

definition rowLengths_of :: "string \<Rightarrow> int list" where
  "rowLengths_of txt = map (\<lambda>line. int (length line)) (split_newline txt)"

section \<open>The host and the selection manager\<close>

type_synonym editor_id = nat
type_synonym layer_id = nat

text \<open>The registry entry of one editor: the two marker-layer handles.\<close>

record layer_pair =
  visibleMarkerLayer :: layer_id
  selectedMarkerLayer :: layer_id

text \<open>
  What the host keeps for one text editor, as far as the manager reads or changes it:
  the buffer text, the ranges folded by \<open>foldBufferRange\<close> and not yet unfolded, the
  selection last set by \<open>setSelectedBufferRanges\<close> and how often a flash was requested.
\<close>

record editor =
  buffer_text :: string
  folds :: "candid list"
  selectedBufferRanges :: "range list"
  flashes :: nat

text \<open>
  Modelled from the spec: the \<open>debounce\<close> package is not part of the sources. Given a
  function and a delay it returns a callable that coalesces invocations into one trailing
  call; \<open>clear\<close> cancels the pending call. The wrapper is its delay and whether a trailing
  call is pending; the function it wraps is always \<open>searchModel.handleSelection\<close>.
\<close>

record debounced =
  wait :: int
  pending :: bool

text \<open>
  The \<open>CompositeDisposable\<close> in \<open>this.selectionSubscription\<close>: the editor whose
  selection events it listens to, and whether it has been disposed.
\<close>

record subscription =
  sub_editor :: editor_id
  sub_disposed :: bool

datatype js_error = TypeError

datatype outcome = Returned | Threw js_error

text \<open>
  The fields of the \<open>SelectionManager\<close> instance, followed by the state of its
  collaborators: the number of calls the search model has received, and the host's marker
  layers (a store from handles to the ranges of their markers, with the next unused
  handle), editors, active text editor and configuration value
  \<open>highlight-selected.timeout\<close>.
\<close>

record state =
  editorToMarkerLayerMap :: "(editor_id \<times> layer_pair) list"
  resultCount :: int
  hideCandids :: "candid list option"
  disabled :: bool
  enableAutofold :: bool
  handleSelectionDebounce :: "debounced option"
  selectionSubscription :: "subscription option"
  editorSubscriptions_disposed :: bool
  activeItemSubscription_disposed :: bool
  emitted :: "string list"
  handleSelectionCalls :: nat
  layerMarkers :: "layer_id \<Rightarrow> range list"
  nextLayer :: layer_id
  editors :: "editor_id \<Rightarrow> editor"
  textEditors :: "editor_id list"
  activeEditor :: "editor_id option"
  config_timeout :: int

subsection \<open>Host primitives\<close>

text \<open>
  Modelled from the spec: \<open>getActiveEditor\<close> lives in \<open>utils/editor-finders\<close>, which is
  not among the sources. It yields the active document's editor, or nothing when there is
  no active document.
\<close>

definition getActiveEditor :: "state \<Rightarrow> editor_id option" where
  "getActiveEditor s = activeEditor s"

text \<open>\<open>editor.addMarkerLayer()\<close>: a new, empty layer under a handle not used before.\<close>

definition addMarkerLayer :: "state \<Rightarrow> layer_id \<times> state" where
  "addMarkerLayer s =
     (nextLayer s,
      s\<lparr>layerMarkers := (layerMarkers s)(nextLayer s := []),
        nextLayer := nextLayer s + 1\<rparr>)"

definition clear :: "layer_id \<Rightarrow> state \<Rightarrow> state" where
  "clear h s = s\<lparr>layerMarkers := (layerMarkers s)(h := [])\<rparr>"

definition foldBufferRange :: "editor_id \<Rightarrow> candid \<Rightarrow> state \<Rightarrow> state" where
  "foldBufferRange e c s =
     s\<lparr>editors := (editors s)(e := (editors s e)\<lparr>folds := folds (editors s e) @ [c]\<rparr>)\<rparr>"

definition unfoldAll :: "editor_id \<Rightarrow> state \<Rightarrow> state" where
  "unfoldAll e s = s\<lparr>editors := (editors s)(e := (editors s e)\<lparr>folds := []\<rparr>)\<rparr>"

definition setSelectedBufferRanges :: "editor_id \<Rightarrow> range list \<Rightarrow> state \<Rightarrow> state" where
  "setSelectedBufferRanges e ranges s =
     s\<lparr>editors := (editors s)(e := (editors s e)
         \<lparr>selectedBufferRanges := ranges, flashes := flashes (editors s e) + 1\<rparr>)\<rparr>"

text \<open>
  Modelled from the spec: the search model (\<open>./search-model\<close>) is not among the sources.
  Its \<open>handleSelection\<close> is the external search engine; only the call is recorded.
\<close>

definition searchModel_handleSelection :: "state \<Rightarrow> state" where
  "searchModel_handleSelection s = s\<lparr>handleSelectionCalls := handleSelectionCalls s + 1\<rparr>"

text \<open>
  \<open>Object.keys\<close> of the registry object: its keys are editor ids, and integer keys are
  enumerated in ascending order.
\<close>

definition Object_keys :: "(editor_id \<times> layer_pair) list \<Rightarrow> editor_id list" where
  "Object_keys m = sort (remdups (map fst m))"

subsection \<open>\<open>selectAll\<close> and the fold commands\<close>

text \<open>
  Lines 164-168 and 189-193: the ranges of the markers of the visible layer, followed by
  those of the selected layer.
\<close>

definition collectRanges :: "layer_pair \<Rightarrow> state \<Rightarrow> range list" where
  "collectRanges markerLayers s =
     layerMarkers s (visibleMarkerLayer markerLayers) @
     layerMarkers s (selectedMarkerLayer markerLayers)"

text \<open>
  Each of the next three evaluates \<open>editor.id\<close> or \<open>editor.unfoldAll()\<close> on the result
  of \<open>getActiveEditor()\<close> with no check: on \<open>undefined\<close> that throws a TypeError.
\<close>

definition selectAll :: "state \<Rightarrow> outcome \<times> state" where
  "selectAll s =
     (case getActiveEditor s of
        None \<Rightarrow> (Threw TypeError, s)
      | Some editor \<Rightarrow>
          (case map_of (editorToMarkerLayerMap s) editor of
             None \<Rightarrow> (Returned, s)
           | Some markerLayers \<Rightarrow>
               (let ranges = collectRanges markerLayers s in
                if length ranges > 0
                then (Returned, setSelectedBufferRanges editor ranges s)
                else (Returned, s))))"

definition unfoldNonSelected :: "state \<Rightarrow> outcome \<times> state" where
  "unfoldNonSelected s =
     (case getActiveEditor s of
        None \<Rightarrow> (Threw TypeError, s)
      | Some editor \<Rightarrow> (Returned, (unfoldAll editor s)\<lparr>hideCandids := None\<rparr>))"

definition foldNonSelected :: "state \<Rightarrow> outcome \<times> state" where
  "foldNonSelected s =
     (let s1 = s\<lparr>hideCandids := Some []\<rparr> in
      case getActiveEditor s1 of
        None \<Rightarrow> (Threw TypeError, s1)
      | Some editor \<Rightarrow>
          (case map_of (editorToMarkerLayerMap s1) editor of
             None \<Rightarrow> (Returned, s1)
           | Some markerLayers \<Rightarrow>
               (let ranges = collectRanges markerLayers s1 in
                if length ranges > 0 then
                  (let rowLengths = rowLengths_of (buffer_text (editors s1 editor));
                       hc = pushHideCandids ranges rowLengths [];
                       s2 = s1\<lparr>hideCandids := Some hc\<rparr>
                   in (Returned, foldl (\<lambda>st candid. foldBufferRange editor candid st) s2 hc))
                else (Returned, s1))))"

text \<open>Line 230: \<open>if (this.hideCandids)\<close>; every array, also the empty one, is truthy.\<close>

definition toogleFoldNonSelected :: "state \<Rightarrow> outcome \<times> state" where
  "toogleFoldNonSelected s =
     (case hideCandids s of
        Some hc \<Rightarrow> unfoldNonSelected s
      | None \<Rightarrow> foldNonSelected s)"

subsection \<open>The emitter and the registry\<close>

text \<open>
  \<open>this.emitter.emit(name)\<close>: the emission is recorded and the listeners that the
  constructor registered (lines 44-53) run synchronously, so what they throw leaves
  \<open>emit\<close>. Both listen for one event each and toggle the fold when
  \<open>this.enableAutofold\<close> is set.
\<close>

definition emit :: "string \<Rightarrow> state \<Rightarrow> outcome \<times> state" where
  "emit eventName s =
     (let s1 = s\<lparr>emitted := emitted s @ [eventName]\<rparr> in
      if eventName = ''did-remove-marker-layer'' \<or> eventName = ''did-finish-adding-markers''
      then (if enableAutofold s1 then toogleFoldNonSelected s1 else (Returned, s1))
      else (Returned, s1))"

definition removeMarkers :: "editor_id \<Rightarrow> state \<Rightarrow> outcome \<times> state" where
  "removeMarkers editorId s =
     (case map_of (editorToMarkerLayerMap s) editorId of
        None \<Rightarrow> (Returned, s)
      | Some markerLayers \<Rightarrow>
          (let s1 = clear (visibleMarkerLayer markerLayers) s;
               s2 = clear (selectedMarkerLayer markerLayers) s1;
               s3 = s2\<lparr>resultCount := 0\<rparr>
           in emit ''did-remove-marker-layer'' s3))"

text \<open>The \<open>forEach\<close> of line 138; a call that throws ends it.\<close>

fun forEach_removeMarkers :: "editor_id list \<Rightarrow> state \<Rightarrow> outcome \<times> state" where
  "forEach_removeMarkers [] s = (Returned, s)"
| "forEach_removeMarkers (editorId # ids) s =
     (case removeMarkers editorId s of
        (Returned, s') \<Rightarrow> forEach_removeMarkers ids s'
      | (Threw e, s') \<Rightarrow> (Threw e, s'))"

definition removeAllMarkers :: "state \<Rightarrow> outcome \<times> state" where
  "removeAllMarkers s = forEach_removeMarkers (Object_keys (editorToMarkerLayerMap s)) s"

text \<open>
  Lines 237-250. The handles read from an existing entry (lines 240-243) are overwritten
  at once by the two new layers.
\<close>

definition setupMarkerLayers :: "editor_id \<Rightarrow> state \<Rightarrow> state" where
  "setupMarkerLayers editor s =
     (let (markerLayer, s1) = addMarkerLayer s;
          (markerLayerForHiddenMarkers, s2) = addMarkerLayer s1
      in s2\<lparr>editorToMarkerLayerMap :=
              AList.update editor
                \<lparr>visibleMarkerLayer = markerLayer,
                 selectedMarkerLayer = markerLayerForHiddenMarkers\<rparr>
                (editorToMarkerLayerMap s2)\<rparr>)"

subsection \<open>The debounced pipeline\<close>

definition debounce :: "int \<Rightarrow> debounced" where
  "debounce w = \<lparr>wait = w, pending = False\<rparr>"

definition debouncedHandleSelection :: "state \<Rightarrow> state" where
  "debouncedHandleSelection s =
     (let s1 = (case handleSelectionDebounce s of
                  None \<Rightarrow> s\<lparr>handleSelectionDebounce := Some (debounce (config_timeout s))\<rparr>
                | Some d \<Rightarrow> s)
      in s1\<lparr>handleSelectionDebounce :=
              map_option (\<lambda>d. d\<lparr>pending := True\<rparr>) (handleSelectionDebounce s1)\<rparr>)"

text \<open>The trailing call of the wrapper when its timer runs out.\<close>

definition debounce_timeout :: "state \<Rightarrow> state" where
  "debounce_timeout s =
     (case handleSelectionDebounce s of
        None \<Rightarrow> s
      | Some d \<Rightarrow>
          if pending d
          then searchModel_handleSelection
                 (s\<lparr>handleSelectionDebounce := Some (d\<lparr>pending := False\<rparr>)\<rparr>)
          else s)"

definition enable :: "state \<Rightarrow> state" where
  "enable s = debouncedHandleSelection (s\<lparr>disabled := False\<rparr>)"

definition disable :: "state \<Rightarrow> outcome \<times> state" where
  "disable s = removeAllMarkers (s\<lparr>disabled := True\<rparr>)"

definition dispose_selectionSubscription :: "state \<Rightarrow> state" where
  "dispose_selectionSubscription s =
     (case selectionSubscription s of
        None \<Rightarrow> s
      | Some sub \<Rightarrow> s\<lparr>selectionSubscription := Some (sub\<lparr>sub_disposed := True\<rparr>)\<rparr>)"

definition subscribeToActiveTextEditor :: "state \<Rightarrow> state" where
  "subscribeToActiveTextEditor s =
     (let s1 = dispose_selectionSubscription s in
      case getActiveEditor s1 of
        None \<Rightarrow> s1
      | Some editor \<Rightarrow>
          searchModel_handleSelection
            (s1\<lparr>selectionSubscription := Some \<lparr>sub_editor = editor, sub_disposed = False\<rparr>\<rparr>))"

text \<open>
  Lines 56-65. \<open>this.handleSelectionDebounce.clear()\<close> throws when the wrapper was never
  built. The subscription that \<open>listenForTimeoutChange\<close> returns is not kept by the
  constructor (line 37), so there is nothing here that disposes it.
\<close>

definition destroy :: "state \<Rightarrow> outcome \<times> state" where
  "destroy s =
     (case handleSelectionDebounce s of
        None \<Rightarrow> (Threw TypeError, s)
      | Some d \<Rightarrow>
          (let s1 = s\<lparr>handleSelectionDebounce := Some (d\<lparr>pending := False\<rparr>)\<rparr>;
               s2 = s1\<lparr>activeItemSubscription_disposed := True\<rparr>;
               s3 = dispose_selectionSubscription s2;
               s4 = s3\<lparr>editorSubscriptions_disposed := True\<rparr>
           in (Returned, s4)))"

subsection \<open>Host events and the constructor\<close>

datatype pane_item = TextEditor editor_id | OtherItem

text \<open>
  What the host can report, each with the change of the host's own state that it reports:
  a text editor is observed, a pane item is about to be destroyed, the active pane item
  changed (to a text editor or to something else), a selection was added or changed in an
  editor, the configuration value changed, the timer of the debounce wrapper ran out.
\<close>

datatype event =
    DidObserveTextEditor editor_id
  | WillDestroyPaneItem pane_item
  | DidChangeActivePaneItem "editor_id option"
  | DidAddSelection editor_id
  | DidChangeSelectionRange editor_id
  | DidChangeTimeout int
  | DebounceTimeout

definition selectionSubscribed :: "editor_id \<Rightarrow> state \<Rightarrow> bool" where
  "selectionSubscribed e s =
     (case selectionSubscription s of
        None \<Rightarrow> False
      | Some sub \<Rightarrow> sub_editor sub = e \<and> \<not> sub_disposed sub)"

text \<open>
  The callbacks of the constructor (lines 19-41) and of \<open>subscribeToActiveTextEditor\<close>
  (lines 132-133) and \<open>listenForTimeoutChange\<close> (lines 115-117); a callback runs while
  its subscription is not disposed.
\<close>

fun dispatch :: "event \<Rightarrow> state \<Rightarrow> outcome \<times> state" where
  "dispatch (DidObserveTextEditor e) s =
     (let s1 = s\<lparr>textEditors := textEditors s @ [e]\<rparr> in
      if editorSubscriptions_disposed s1 then (Returned, s1)
      else (Returned, setupMarkerLayers e s1))"
| "dispatch (WillDestroyPaneItem item) s =
     (if editorSubscriptions_disposed s then (Returned, s)
      else (case item of
              OtherItem \<Rightarrow> (Returned, s)
            | TextEditor e \<Rightarrow>
                (case removeMarkers e s of
                   (Returned, s') \<Rightarrow>
                     (Returned,
                      s'\<lparr>editorToMarkerLayerMap := AList.delete e (editorToMarkerLayerMap s')\<rparr>)
                 | (Threw err, s') \<Rightarrow> (Threw err, s'))))"
| "dispatch (DidChangeActivePaneItem a) s =
     (let s1 = s\<lparr>activeEditor := a\<rparr> in
      if activeItemSubscription_disposed s1 then (Returned, s1)
      else (Returned, subscribeToActiveTextEditor (debouncedHandleSelection s1)))"
| "dispatch (DidAddSelection e) s =
     (if selectionSubscribed e s then (Returned, debouncedHandleSelection s) else (Returned, s))"
| "dispatch (DidChangeSelectionRange e) s =
     (if selectionSubscribed e s then (Returned, debouncedHandleSelection s) else (Returned, s))"
| "dispatch (DidChangeTimeout v) s =
     (Returned, debouncedHandleSelection (s\<lparr>config_timeout := v\<rparr>))"
| "dispatch DebounceTimeout s = (Returned, debounce_timeout s)"

text \<open>
  The constructor, lines 7-54, run in a workspace \<open>w\<close> of which only the host's part is
  read. \<open>observeTextEditors\<close> calls back at once for every open text editor.
\<close>

definition new_SelectionManager :: "state \<Rightarrow> state" where
  "new_SelectionManager w =
     (let s0 = w\<lparr>editorToMarkerLayerMap := [], resultCount := 0, hideCandids := None,
                 disabled := False, enableAutofold := False,
                 handleSelectionDebounce := None, selectionSubscription := None,
                 editorSubscriptions_disposed := False,
                 activeItemSubscription_disposed := False,
                 emitted := [], handleSelectionCalls := 0\<rparr>;
          s1 = foldl (\<lambda>st e. setupMarkerLayers e st) s0 (textEditors s0);
          s2 = enable s1
      in subscribeToActiveTextEditor s2)"

text \<open>The public commands, and runs of commands and host events.\<close>

datatype command =
    Enable | Disable | SelectAll | FoldNonSelected | UnfoldNonSelected
  | ToogleFoldNonSelected | Destroy

fun invoke :: "command \<Rightarrow> state \<Rightarrow> outcome \<times> state" where
  "invoke Enable s = (Returned, enable s)"
| "invoke Disable s = disable s"
| "invoke SelectAll s = selectAll s"
| "invoke FoldNonSelected s = foldNonSelected s"
| "invoke UnfoldNonSelected s = unfoldNonSelected s"
| "invoke ToogleFoldNonSelected s = toogleFoldNonSelected s"
| "invoke Destroy s = destroy s"

datatype action = Command command | Event event

fun perform :: "action \<Rightarrow> state \<Rightarrow> outcome \<times> state" where
  "perform (Command c) s = invoke c s"
| "perform (Event ev) s = dispatch ev s"

text \<open>A run goes on after an action that threw: the host reports the error and lives on.\<close>

fun run :: "action list \<Rightarrow> state \<Rightarrow> state" where
  "run [] s = s"
| "run (a # as) s = run as (snd (perform a s))"

section \<open>Notions of the specification\<close>

subsection \<open>Rows covered, sorted and non-overlapping ranges\<close>

definition pos_le :: "point \<Rightarrow> point \<Rightarrow> bool" where
  "pos_le p q = (row p < row q \<or> (row p = row q \<and> column p \<le> column q))"

text \<open>A \<open>Range\<close> object never ends before it starts.\<close>

definition wf_range :: "range \<Rightarrow> bool" where
  "wf_range r = pos_le (start r) (endp r)"

text \<open>
  Sorted ascending by start position and pairwise non-overlapping: of any two ranges of
  the list, the earlier one starts no later than the later one starts, and ends no later
  than the later one starts (the ranges are half-open, so they may touch).
\<close>

definition sorted_non_overlapping :: "range list \<Rightarrow> bool" where
  "sorted_non_overlapping ranges =
     sorted_wrt (\<lambda>a b. pos_le (start a) (start b) \<and> pos_le (endp a) (start b)) ranges"

definition in_range_rows :: "int \<Rightarrow> range \<Rightarrow> bool" where
  "in_range_rows l r = (row (start r) \<le> l \<and> l \<le> row (endp r))"

definition in_candid_rows :: "int \<Rightarrow> candid \<Rightarrow> bool" where
  "in_candid_rows l c = (crow (cstart c) \<le> l \<and> l \<le> crow (cend c))"

subsection \<open>The complement as the specification words it\<close>

text \<open>
  The head range \<open>[{0,0} .. {firstRange.start.row - 1, lineLengths[...]}]\<close>, emitted
  when the first range does not start at row 0.
\<close>

definition head_spec :: "range \<Rightarrow> int list \<Rightarrow> candid list" where
  "head_spec firstRange lineLengths =
     (if row (start firstRange) \<noteq> 0 then
        [\<lparr>cstart = \<lparr>crow = 0, ccolumn = Some 0\<rparr>,
          cend = \<lparr>crow = row (start firstRange) - 1,
                  ccolumn = at_index lineLengths (row (start firstRange) - 1)\<rparr>\<rparr>]
      else [])"

text \<open>
  The gap range of an adjacent pair, emitted when
  \<open>r[i-1].end.row + 1 \<le> r[i].start.row - 1\<close>.
\<close>

definition gap_between :: "range \<Rightarrow> range \<Rightarrow> int list \<Rightarrow> candid list" where
  "gap_between r1 r2 lineLengths =
     (if row (endp r1) + 1 \<le> row (start r2) - 1 then
        [\<lparr>cstart = \<lparr>crow = row (endp r1) + 1, ccolumn = Some 0\<rparr>,
          cend = \<lparr>crow = row (start r2) - 1,
                  ccolumn = at_index lineLengths (row (start r2) - 1)\<rparr>\<rparr>]
      else [])"

definition gap_spec :: "range list \<Rightarrow> int list \<Rightarrow> nat \<Rightarrow> candid list" where
  "gap_spec r lineLengths i = gap_between (r ! (i - 1)) (r ! i) lineLengths"

text \<open>
  The tail range \<open>[{lastRange.end.row + 1, 0} .. {lastLine, lineLengths[lastLine]}]\<close>,
  emitted when the last range does not end on the last line.
\<close>

definition tail_spec :: "range \<Rightarrow> int list \<Rightarrow> candid list" where
  "tail_spec lastRange lineLengths =
     (if row (endp lastRange) \<noteq> LAST_LINE lineLengths then
        [\<lparr>cstart = \<lparr>crow = row (endp lastRange) + 1, ccolumn = Some 0\<rparr>,
          cend = \<lparr>crow = LAST_LINE lineLengths,
                  ccolumn = at_index lineLengths (LAST_LINE lineLengths)\<rparr>\<rparr>]
      else [])"

definition complement_spec :: "range list \<Rightarrow> int list \<Rightarrow> candid list" where
  "complement_spec ranges lineLengths =
     (if ranges = [] then []
      else head_spec (hd ranges) lineLengths
           @ concat (map (gap_spec ranges lineLengths) [1..<length ranges])
           @ tail_spec (last ranges) lineLengths)"

text \<open>The gaps of the adjacent pairs, by recursion on the list.\<close>

fun gaps :: "range list \<Rightarrow> int list \<Rightarrow> candid list" where
  "gaps (r1 # r2 # rs) lineLengths = gap_between r1 r2 lineLengths @ gaps (r2 # rs) lineLengths"
| "gaps rs lineLengths = []"

subsection \<open>Fold state and registry\<close>

text \<open>
  The complement of the highlights that editor \<open>e\<close> has now, over the text it has now:
  what a fold of \<open>e\<close> stores in \<open>this.hideCandids\<close>.
\<close>

definition currentComplement :: "editor_id \<Rightarrow> state \<Rightarrow> candid list" where
  "currentComplement e s =
     (case map_of (editorToMarkerLayerMap s) e of
        None \<Rightarrow> []
      | Some markerLayers \<Rightarrow>
          computeHideCandids (collectRanges markerLayers s)
            (rowLengths_of (buffer_text (editors s e))))"

definition registry_handles :: "(editor_id \<times> layer_pair) list \<Rightarrow> layer_id list" where
  "registry_handles m =
     concat (map (\<lambda>(e, lp). [visibleMarkerLayer lp, selectedMarkerLayer lp]) m)"

text \<open>
  The registry as the manager builds it: one entry for an editor, no handle held twice,
  and every handle held is one the host has handed out.
\<close>

definition registry_ok :: "state \<Rightarrow> bool" where
  "registry_ok s =
     (distinct (map fst (editorToMarkerLayerMap s))
      \<and> distinct (registry_handles (editorToMarkerLayerMap s))
      \<and> list_all (\<lambda>h. h < nextLayer s) (registry_handles (editorToMarkerLayerMap s)))"

text \<open>A layer is empty when it holds no marker.\<close>

definition layers_empty :: "layer_pair \<Rightarrow> state \<Rightarrow> bool" where
  "layers_empty lp s =
     (layerMarkers s (visibleMarkerLayer lp) = [] \<and> layerMarkers s (selectedMarkerLayer lp) = [])"

text \<open>Editor \<open>e\<close> has no highlighted range: no registry entry, or two empty layers.\<close>

definition no_highlights :: "editor_id \<Rightarrow> state \<Rightarrow> bool" where
  "no_highlights e s =
     (case map_of (editorToMarkerLayerMap s) e of
        None \<Rightarrow> True
      | Some markerLayers \<Rightarrow> layers_empty markerLayers s)"

section \<open>Example inputs\<close>

text \<open>
  The ranges \<open>[{0,0}-{0,4}], [{2,0}-{2,3}]\<close>; the specification's example has them on a
  document of four lines of lengths \<open>[5,0,3,6]\<close>.
\<close>

definition ex_ranges :: "range list" where
  "ex_ranges = [\<lparr>start = \<lparr>row = 0, column = 0\<rparr>, endp = \<lparr>row = 0, column = 4\<rparr>\<rparr>,
                \<lparr>start = \<lparr>row = 2, column = 0\<rparr>, endp = \<lparr>row = 2, column = 3\<rparr>\<rparr>]"

text \<open>
  A workspace with one text editor, of id 7 and active, holding the two lines \<open>abc\<close>
  and \<open>xyz\<close>; the manager constructed in it; the same after the search engine has put
  one marker on \<open>abc\<close> in the visible layer; that state after the active pane item
  became something that is no text editor; and the highlighted state folded, after
  which a third line \<open>q\<close> was appended to the text.
\<close>

definition ex_editor :: editor where
  "ex_editor = \<lparr>buffer_text = ''abc\<newline>xyz'', folds = [], selectedBufferRanges = [], flashes = 0\<rparr>"

definition ex_workspace :: state where
  "ex_workspace =
     \<lparr>editorToMarkerLayerMap = [], resultCount = 0, hideCandids = None, disabled = False,
      enableAutofold = False, handleSelectionDebounce = None, selectionSubscription = None,
      editorSubscriptions_disposed = False, activeItemSubscription_disposed = False,
      emitted = [], handleSelectionCalls = 0,
      layerMarkers = (\<lambda>h. []), nextLayer = 0,
      editors = (\<lambda>e. ex_editor), textEditors = [7], activeEditor = Some 7,
      config_timeout = 250\<rparr>"

definition ex_manager :: state where
  "ex_manager = new_SelectionManager ex_workspace"

definition ex_highlighted :: state where
  "ex_highlighted =
     ex_manager\<lparr>layerMarkers := (layerMarkers ex_manager)
        (0 := [\<lparr>start = \<lparr>row = 0, column = 0\<rparr>, endp = \<lparr>row = 0, column = 3\<rparr>\<rparr>])\<rparr>"

definition ex_no_active :: state where
  "ex_no_active = snd (dispatch (DidChangeActivePaneItem None) ex_highlighted)"

definition ex_edited :: state where
  "ex_edited =
     (let s = snd (foldNonSelected ex_highlighted) in
      s\<lparr>editors := (editors s)(7 := (editors s 7)\<lparr>buffer_text := ''abc\<newline>xyz\<newline>q''\<rparr>)\<rparr>)"

text \<open>The state without an active text editor, with the autofold hook switched on.\<close>

definition ex_autofold_no_active :: state where
  "ex_autofold_no_active = ex_no_active\<lparr>enableAutofold := True\<rparr>"

text \<open>
  A manager constructed with the two text editors 9 and 10 open and no active text editor,
  with the autofold hook switched on, after the search engine has put one marker in the
  visible layer of each editor.
\<close>

definition ex_autofold_two_editors :: state where
  "ex_autofold_two_editors =
     (new_SelectionManager (ex_workspace\<lparr>textEditors := [9, 10], activeEditor := None\<rparr>))
       \<lparr>enableAutofold := True,
        layerMarkers := (\<lambda>h. [])
          (0 := [\<lparr>start = \<lparr>row = 0, column = 0\<rparr>, endp = \<lparr>row = 0, column = 3\<rparr>\<rparr>],
           2 := [\<lparr>start = \<lparr>row = 1, column = 0\<rparr>, endp = \<lparr>row = 1, column = 3\<rparr>\<rparr>])\<rparr>"

section \<open>The complement computation\<close>

subsection \<open>The loop of \<open>foldNonSelected\<close> pushes the gaps of the adjacent pairs\<close>

declare gapLoop.simps [simp del]

lemma gapLoop_step:
  "i < length rs \<Longrightarrow> gapLoop i rs ls hc = gapLoop (Suc i) rs ls (hc @ gap_spec rs ls i)"
  by (subst gapLoop.simps) (simp add: LAST_RANGE_def gap_spec_def gap_between_def Let_def)

lemma gapLoop_stop:
  "length rs \<le> i \<Longrightarrow> gapLoop i rs ls hc = hc"
  by (subst gapLoop.simps) (simp add: LAST_RANGE_def)

lemma gapLoop_concat:
  "gapLoop i rs ls hc = hc @ concat (map (gap_spec rs ls) [i..<length rs])"
proof (induction "length rs - i" arbitrary: i hc)
  case 0
  then show ?case by (simp add: gapLoop_stop)
next
  case (Suc n)
  then have lt: "i < length rs" and n: "n = length rs - Suc i" by simp_all
  have "gapLoop i rs ls hc = gapLoop (Suc i) rs ls (hc @ gap_spec rs ls i)"
    using lt by (rule gapLoop_step)
  also have "\<dots> = (hc @ gap_spec rs ls i) @ concat (map (gap_spec rs ls) [Suc i..<length rs])"
    using n by (rule Suc.hyps(1))
  finally show ?case using lt by (simp add: upt_conv_Cons)
qed

lemma gap_spec_Cons: "0 < i \<Longrightarrow> gap_spec (r # rs) ls (Suc i) = gap_spec rs ls i"
  by (cases i) (simp_all add: gap_spec_def)

lemma concat_gap_spec_gaps:
  "concat (map (gap_spec rs ls) [Suc 0..<length rs]) = gaps rs ls"
proof (induction rs ls rule: gaps.induct)
  case (1 r1 r2 rs ls)
  have "[Suc 0..<length (r1 # r2 # rs)] = Suc 0 # map Suc [Suc 0..<length (r2 # rs)]"
    by (simp add: upt_conv_Cons map_Suc_upt del: upt_Suc)
  then have "concat (map (gap_spec (r1 # r2 # rs) ls) [Suc 0..<length (r1 # r2 # rs)])
      = gap_spec (r1 # r2 # rs) ls (Suc 0)
        @ concat (map (\<lambda>i. gap_spec (r1 # r2 # rs) ls (Suc i)) [Suc 0..<length (r2 # rs)])"
    by (simp add: comp_def del: upt_Suc)
  also have "map (\<lambda>i. gap_spec (r1 # r2 # rs) ls (Suc i)) [Suc 0..<length (r2 # rs)]
      = map (gap_spec (r2 # rs) ls) [Suc 0..<length (r2 # rs)]"
    by (rule map_cong) (simp_all add: gap_spec_Cons del: upt_Suc)
  also have "concat \<dots> = gaps (r2 # rs) ls" by (rule 1)
  also have "gap_spec (r1 # r2 # rs) ls (Suc 0) = gap_between r1 r2 ls"
    by (simp add: gap_spec_def)
  finally show ?case by simp
qed (simp_all)

lemma pushHideCandids_eq:
  "rs \<noteq> [] \<Longrightarrow> pushHideCandids rs ls hc = hc @ head_spec (hd rs) ls @ gaps rs ls @ tail_spec (last rs) ls"
  by (simp add: pushHideCandids_def pushRowsAfter_def pushRowsBefore_def gapLoop_concat
      concat_gap_spec_gaps head_spec_def tail_spec_def Let_def hd_conv_nth last_conv_nth
      LAST_RANGE_def nat_diff_distrib' del: upt_Suc)

lemma computeHideCandids_eq:
  "computeHideCandids rs ls = complement_spec rs ls"
  by (simp add: computeHideCandids_def complement_spec_def pushHideCandids_eq concat_gap_spec_gaps del: upt_Suc)

subsection \<open>Rows of the gaps\<close>

lemma sorted_rows:
  "sorted_non_overlapping rs \<Longrightarrow> sorted_wrt (\<lambda>a b. row (endp a) \<le> row (start b)) rs"
  unfolding sorted_non_overlapping_def
  by (erule sorted_wrt_mono_rel[rotated]) (auto simp: pos_le_def)

lemma wf_rows: "list_all wf_range rs \<Longrightarrow> \<forall>r\<in>set rs. row (start r) \<le> row (endp r)"
  by (auto simp: list_all_iff wf_range_def pos_le_def)

lemma gap_between_rows:
  "c \<in> set (gap_between r1 r2 ls) \<Longrightarrow> crow (cstart c) = row (endp r1) + 1 \<and> crow (cend c) = row (start r2) - 1"
  by (auto simp: gap_between_def split: if_splits)

lemma gaps_after_first_end:
  "sorted_wrt (\<lambda>a b. row (endp a) \<le> row (start b)) (r # rs) \<Longrightarrow>
   \<forall>x\<in>set (r # rs). row (start x) \<le> row (endp x) \<Longrightarrow>
   l \<le> row (endp r) \<Longrightarrow> filter (in_candid_rows l) (gaps (r # rs) ls) = []"
proof (induction rs arbitrary: r)
  case Nil
  then show ?case by simp
next
  case (Cons r2 rs)
  have "l \<le> row (endp r2)" using Cons.prems by force
  moreover have "sorted_wrt (\<lambda>a b. row (endp a) \<le> row (start b)) (r2 # rs)"
    using Cons.prems(1) by simp
  moreover have "\<forall>x\<in>set (r2 # rs). row (start x) \<le> row (endp x)"
    using Cons.prems(2) by simp
  ultimately have "filter (in_candid_rows l) (gaps (r2 # rs) ls) = []"
    by (intro Cons.IH)
  moreover have "filter (in_candid_rows l) (gap_between r r2 ls) = []"
    using Cons.prems(3) by (auto simp: filter_empty_conv in_candid_rows_def dest!: gap_between_rows)
  ultimately show ?case by simp
qed

lemma end_le_last:
  "sorted_wrt (\<lambda>a b. row (endp a) \<le> row (start b)) rs \<Longrightarrow>
   \<forall>x\<in>set rs. row (start x) \<le> row (endp x) \<Longrightarrow>
   x \<in> set rs \<Longrightarrow> row (endp x) \<le> row (endp (last rs))"
proof (induction rs)
  case Nil
  then show ?case by simp
next
  case (Cons r rs)
  show ?case
  proof (cases "rs = []")
    case True
    then show ?thesis using Cons.prems by simp
  next
    case False
    then have l: "last rs \<in> set rs" by simp
    show ?thesis
    proof (cases "x = r")
      case True
      have "row (endp r) \<le> row (start (last rs))" using Cons.prems(1) l by simp
      also have "\<dots> \<le> row (endp (last rs))" using Cons.prems(2) l by simp
      finally show ?thesis using True False by simp
    next
      case False
      then show ?thesis using Cons \<open>rs \<noteq> []\<close> by simp
    qed
  qed
qed

lemma gaps_before_last_end:
  "sorted_wrt (\<lambda>a b. row (endp a) \<le> row (start b)) rs \<Longrightarrow>
   \<forall>x\<in>set rs. row (start x) \<le> row (endp x) \<Longrightarrow> rs \<noteq> [] \<Longrightarrow>
   row (endp (last rs)) < l \<Longrightarrow> filter (in_candid_rows l) (gaps rs ls) = []"
proof (induction rs ls rule: gaps.induct)
  case (1 r1 r2 rs ls)
  have "row (endp r2) \<le> row (endp (last (r2 # rs)))"
    using 1(2,3) by (intro end_le_last) simp_all
  then have "row (start r2) < l" using 1(3,5) by force
  then have "filter (in_candid_rows l) (gap_between r1 r2 ls) = []"
    by (auto simp: filter_empty_conv in_candid_rows_def dest!: gap_between_rows)
  moreover have "filter (in_candid_rows l) (gaps (r2 # rs) ls) = []"
    using 1 by simp
  ultimately show ?case by simp
qed simp_all

lemma gaps_between:
  "sorted_wrt (\<lambda>a b. row (endp a) \<le> row (start b)) rs \<Longrightarrow>
   \<forall>x\<in>set rs. row (start x) \<le> row (endp x) \<Longrightarrow> rs \<noteq> [] \<Longrightarrow>
   row (start (hd rs)) \<le> l \<Longrightarrow> l \<le> row (endp (last rs)) \<Longrightarrow>
   length (filter (in_candid_rows l) (gaps rs ls)) = (if list_ex (in_range_rows l) rs then 0 else 1)"
proof (induction rs ls rule: gaps.induct)
  case (1 r1 r2 rs ls)
  let ?rest = "r2 # rs"
  have sw: "sorted_wrt (\<lambda>a b. row (endp a) \<le> row (start b)) ?rest"
    and wf: "\<forall>x\<in>set ?rest. row (start x) \<le> row (endp x)"
    using 1(2,3) by simp_all
  have starts: "\<forall>x\<in>set ?rest. row (start r2) \<le> row (start x)"
    using sw wf by force
  consider (a) "l \<le> row (endp r1)" | (b) "row (endp r1) < l" "l < row (start r2)"
    | (c) "row (start r2) \<le> l" by linarith
  then show ?case
  proof cases
    case a
    have "filter (in_candid_rows l) (gaps (r1 # ?rest) ls) = []"
      using 1(2,3) a by (rule gaps_after_first_end)
    moreover have "in_range_rows l r1" using a 1(5) by (simp add: in_range_rows_def)
    ultimately show ?thesis by simp
  next
    case b
    have "filter (in_candid_rows l) (gaps ?rest ls) = []"
      using sw wf b wf by (intro gaps_after_first_end) force+
    moreover have "filter (in_candid_rows l) (gap_between r1 r2 ls) = gap_between r1 r2 ls"
      "length (gap_between r1 r2 ls) = 1"
      using b by (auto simp: gap_between_def in_candid_rows_def)
    moreover have "\<not> list_ex (in_range_rows l) (r1 # ?rest)"
      using b starts by (force simp: list_ex_iff in_range_rows_def)
    ultimately show ?thesis by simp
  next
    case c
    have "filter (in_candid_rows l) (gap_between r1 r2 ls) = []"
      using c by (auto simp: filter_empty_conv in_candid_rows_def dest!: gap_between_rows)
    moreover have "length (filter (in_candid_rows l) (gaps ?rest ls))
        = (if list_ex (in_range_rows l) ?rest then 0 else 1)"
      using sw wf c 1(6) by (intro 1(1)) simp_all
    moreover have "in_range_rows l r1 \<Longrightarrow> list_ex (in_range_rows l) ?rest"
      using c 1(2,3) by (auto simp: in_range_rows_def)
    ultimately show ?thesis by auto
  qed
qed (simp_all add: in_range_rows_def)

lemma hd_start_le:
  "sorted_wrt (\<lambda>a b. pos_le (start a) (start b) \<and> pos_le (endp a) (start b)) rs \<Longrightarrow>
   x \<in> set rs \<Longrightarrow> row (start (hd rs)) \<le> row (start x)"
  by (cases rs) (auto simp: pos_le_def)

lemma computeHideCandids_count:
  assumes ne: "ranges \<noteq> []"
    and wf: "list_all wf_range ranges"
    and so: "sorted_non_overlapping ranges"
    and l0: "0 \<le> l" and l1: "l \<le> LAST_LINE rowLengths"
  shows "length (filter (in_candid_rows l) (computeHideCandids ranges rowLengths))
           = (if list_ex (in_range_rows l) ranges then 0 else 1)"
proof -
  let ?h = "head_spec (hd ranges) rowLengths"
  let ?g = "gaps ranges rowLengths"
  let ?t = "tail_spec (last ranges) rowLengths"
  let ?cnt = "\<lambda>cs. length (filter (in_candid_rows l) cs)"
  note sw = sorted_rows[OF so] and w = wf_rows[OF wf]
  have eq: "computeHideCandids ranges rowLengths = ?h @ ?g @ ?t"
    using ne by (simp add: computeHideCandids_def pushHideCandids_eq)
  have hl: "row (start (hd ranges)) \<le> row (endp (last ranges))"
  proof -
    have "row (start (hd ranges)) \<le> row (endp (hd ranges))" using w ne by simp
    also have "\<dots> \<le> row (endp (last ranges))" using sw w ne by (intro end_le_last) simp_all
    finally show ?thesis .
  qed
  have starts: "\<forall>x\<in>set ranges. row (start (hd ranges)) \<le> row (start x)"
    using so hd_start_le unfolding sorted_non_overlapping_def by blast
  have ends: "\<forall>x\<in>set ranges. row (endp x) \<le> row (endp (last ranges))"
    using sw w end_le_last by blast
  consider (before) "l < row (start (hd ranges))"
    | (within) "row (start (hd ranges)) \<le> l" "l \<le> row (endp (last ranges))"
    | (after) "row (endp (last ranges)) < l" by linarith
  then show ?thesis
  proof cases
    case before
    have "?cnt ?h = 1" using before l0 by (simp add: head_spec_def in_candid_rows_def)
    moreover have "filter (in_candid_rows l) ?g = []"
    proof -
      obtain r rs where rs: "ranges = r # rs" using ne by (cases ranges) auto
      have "l \<le> row (endp r)" using before w rs by force
      then show ?thesis using sw w unfolding rs by (intro gaps_after_first_end)
    qed
    moreover have "?cnt ?t = 0" using before hl by (simp add: tail_spec_def in_candid_rows_def)
    moreover have "\<not> list_ex (in_range_rows l) ranges"
      using before starts by (force simp: list_ex_iff in_range_rows_def)
    ultimately show ?thesis by (simp add: eq)
  next
    case within
    have "?cnt ?h = 0" using within by (simp add: head_spec_def in_candid_rows_def)
    moreover have "?cnt ?g = (if list_ex (in_range_rows l) ranges then 0 else 1)"
      using sw w ne within by (rule gaps_between)
    moreover have "?cnt ?t = 0" using within by (simp add: tail_spec_def in_candid_rows_def)
    ultimately show ?thesis by (simp add: eq)
  next
    case after
    have "?cnt ?h = 0" using after hl by (simp add: head_spec_def in_candid_rows_def)
    moreover have "filter (in_candid_rows l) ?g = []"
      using sw w ne after by (rule gaps_before_last_end)
    moreover have "?cnt ?t = 1" using after l1 by (simp add: tail_spec_def in_candid_rows_def)
    moreover have "\<not> list_ex (in_range_rows l) ranges"
      using after ends by (force simp: list_ex_iff in_range_rows_def)
    ultimately show ?thesis by (simp add: eq)
  qed
qed

subsection \<open>Claims on the complement\<close>

text \<open>
  C1, as amended. For a non-empty list of well-formed ranges that is sorted ascending by
  start position and pairwise non-overlapping, and any list of line lengths, every line
  \<open>l\<close> of \<open>0..lastLine\<close> is covered exactly once by the input ranges together with the
  complement computed in \<open>foldNonSelected\<close>: \<open>l\<close> lies in an input range or in a
  complement range, never in both, and in at most one complement range.
\<close>

theorem complement_covers_each_line_once:
  assumes "ranges \<noteq> []"
    and "list_all wf_range ranges"
    and "sorted_non_overlapping ranges"
    and "0 \<le> l" and "l \<le> LAST_LINE rowLengths"
  shows "(list_ex (in_range_rows l) ranges
            \<or> list_ex (in_candid_rows l) (computeHideCandids ranges rowLengths))
       \<and> \<not> (list_ex (in_range_rows l) ranges
            \<and> list_ex (in_candid_rows l) (computeHideCandids ranges rowLengths))
       \<and> length (filter (in_candid_rows l) (computeHideCandids ranges rowLengths)) \<le> 1"
proof -
  let ?cs = "computeHideCandids ranges rowLengths"
  have c: "length (filter (in_candid_rows l) ?cs) = (if list_ex (in_range_rows l) ranges then 0 else 1)"
    using assms by (rule computeHideCandids_count)
  have ex: "list_ex (in_candid_rows l) ?cs \<longleftrightarrow> filter (in_candid_rows l) ?cs \<noteq> []"
    by (simp add: list_ex_iff filter_empty_conv)
  show ?thesis
  proof (cases "list_ex (in_range_rows l) ranges")
    case True
    with c have "filter (in_candid_rows l) ?cs = []" by simp
    with True show ?thesis by (simp add: ex)
  next
    case False
    with c have "length (filter (in_candid_rows l) ?cs) = 1" by simp
    then have "filter (in_candid_rows l) ?cs \<noteq> []" "length (filter (in_candid_rows l) ?cs) \<le> 1"
      by auto
    with False show ?thesis by (simp add: ex)
  qed
qed

text \<open>On the example of the specification, line 1 lies in no input range and in a complement range.\<close>

theorem complement_covers_each_line_once_witness:
  "ex_ranges \<noteq> [] \<and> list_all wf_range ex_ranges \<and> sorted_non_overlapping ex_ranges
   \<and> (0::int) \<le> 1 \<and> 1 \<le> LAST_LINE [5, 0, 3, 6]
   \<and> \<not> list_ex (in_range_rows 1) ex_ranges
   \<and> list_ex (in_candid_rows 1) (computeHideCandids ex_ranges [5, 0, 3, 6])"
proof -
  have h: "ex_ranges \<noteq> []" "list_all wf_range ex_ranges" "sorted_non_overlapping ex_ranges"
    "(0::int) \<le> 1" "1 \<le> LAST_LINE [5, 0, 3, 6]"
    by (simp_all add: ex_ranges_def wf_range_def pos_le_def sorted_non_overlapping_def LAST_LINE_def)
  have n: "\<not> list_ex (in_range_rows 1) ex_ranges"
    by (simp add: ex_ranges_def in_range_rows_def)
  show ?thesis
    using complement_covers_each_line_once[OF h] h n by simp
qed

text \<open>
  C1 as stated fails for the empty list of ranges, which is sorted and non-overlapping:
  under the guard \<open>ranges.length > 0\<close> nothing is pushed, so on a document of one line
  neither an input range nor a complement range covers line 0.
\<close>

theorem complement_of_no_ranges_covers_nothing:
  "list_all wf_range [] \<and> sorted_non_overlapping [] \<and> (0::int) \<le> 0 \<and> 0 \<le> LAST_LINE [5]
   \<and> \<not> list_ex (in_range_rows 0) []
   \<and> \<not> list_ex (in_candid_rows 0) (computeHideCandids [] [5])"
  by (simp add: sorted_non_overlapping_def LAST_LINE_def computeHideCandids_def)

text \<open>
  C2. The list computed in \<open>foldNonSelected\<close> is the one the specification describes:
  the head range exactly when the first range does not start at row 0, then for each
  adjacent pair, in order, its gap range exactly when
  \<open>r[i-1].end.row + 1 \<le> r[i].start.row - 1\<close>, then the tail range exactly when the last
  range does not end on the last line; and on the example of the specification the result
  is \<open>[{1,0}-{1,0}], [{3,0}-{3,6}]\<close>.
\<close>

theorem complement_as_specified:
  "computeHideCandids ranges lineLengths = complement_spec ranges lineLengths
   \<and> computeHideCandids ex_ranges [5, 0, 3, 6]
       = [\<lparr>cstart = \<lparr>crow = 1, ccolumn = Some 0\<rparr>, cend = \<lparr>crow = 1, ccolumn = Some 0\<rparr>\<rparr>,
          \<lparr>cstart = \<lparr>crow = 3, ccolumn = Some 0\<rparr>, cend = \<lparr>crow = 3, ccolumn = Some 6\<rparr>\<rparr>]"
proof
  show "computeHideCandids ranges lineLengths = complement_spec ranges lineLengths"
    by (rule computeHideCandids_eq)
  show "computeHideCandids ex_ranges [5, 0, 3, 6]
       = [\<lparr>cstart = \<lparr>crow = 1, ccolumn = Some 0\<rparr>, cend = \<lparr>crow = 1, ccolumn = Some 0\<rparr>\<rparr>,
          \<lparr>cstart = \<lparr>crow = 3, ccolumn = Some 0\<rparr>, cend = \<lparr>crow = 3, ccolumn = Some 6\<rparr>\<rparr>]"
    by (simp add: computeHideCandids_eq complement_spec_def ex_ranges_def head_spec_def
        tail_spec_def gap_spec_def gap_between_def LAST_LINE_def at_index_def)
qed

text \<open>
  X1. The emptiness edge of the specification: for one range that runs from row 0 to the
  last line of the document, whatever its columns, \<open>foldNonSelected\<close> computes the empty
  complement.
\<close>

theorem complement_of_whole_document_is_empty:
  "computeHideCandids
     [\<lparr>start = \<lparr>row = 0, column = c0\<rparr>, endp = \<lparr>row = LAST_LINE lineLengths, column = c1\<rparr>\<rparr>]
     lineLengths = []"
  by (simp add: computeHideCandids_def pushHideCandids_def pushRowsBefore_def
      pushRowsAfter_def gapLoop_stop LAST_RANGE_def)

section \<open>What the operations change\<close>

subsection \<open>Folding, emitting and removing markers\<close>

lemma foldl_foldBufferRange:
  "foldl (\<lambda>st candid. foldBufferRange e candid st) s hc
     = s\<lparr>editors := (editors s)(e := (editors s e)\<lparr>folds := folds (editors s e) @ hc\<rparr>)\<rparr>"
  by (induction hc arbitrary: s) (simp_all add: foldBufferRange_def)

lemma foldNonSelected_eq:
  "foldNonSelected s =
     (case getActiveEditor s of
        None \<Rightarrow> (Threw TypeError, s\<lparr>hideCandids := Some []\<rparr>)
      | Some e \<Rightarrow>
          (Returned,
           s\<lparr>hideCandids := Some (currentComplement e s),
             editors := (editors s)(e := (editors s e)
                \<lparr>folds := folds (editors s e) @ currentComplement e s\<rparr>)\<rparr>))"
  by (simp add: foldNonSelected_def getActiveEditor_def currentComplement_def
      computeHideCandids_def collectRanges_def foldl_foldBufferRange Let_def
      split: option.split)

lemma unfoldNonSelected_eq:
  "unfoldNonSelected s =
     (case getActiveEditor s of
        None \<Rightarrow> (Threw TypeError, s)
      | Some e \<Rightarrow>
          (Returned,
           s\<lparr>editors := (editors s)(e := (editors s e)\<lparr>folds := []\<rparr>), hideCandids := None\<rparr>))"
  by (simp add: unfoldNonSelected_def unfoldAll_def split: option.split)

text \<open>
  The toggle changes the fold state and the folds of the editors, nothing else; it throws
  exactly when there is no active editor.
\<close>

lemma toogleFoldNonSelected_frame [simp]:
  "editorToMarkerLayerMap (snd (toogleFoldNonSelected s)) = editorToMarkerLayerMap s"
  "disabled (snd (toogleFoldNonSelected s)) = disabled s"
  "enableAutofold (snd (toogleFoldNonSelected s)) = enableAutofold s"
  "handleSelectionDebounce (snd (toogleFoldNonSelected s)) = handleSelectionDebounce s"
  "selectionSubscription (snd (toogleFoldNonSelected s)) = selectionSubscription s"
  "editorSubscriptions_disposed (snd (toogleFoldNonSelected s)) = editorSubscriptions_disposed s"
  "activeItemSubscription_disposed (snd (toogleFoldNonSelected s)) = activeItemSubscription_disposed s"
  "handleSelectionCalls (snd (toogleFoldNonSelected s)) = handleSelectionCalls s"
  "nextLayer (snd (toogleFoldNonSelected s)) = nextLayer s"
  "textEditors (snd (toogleFoldNonSelected s)) = textEditors s"
  "activeEditor (snd (toogleFoldNonSelected s)) = activeEditor s"
  "config_timeout (snd (toogleFoldNonSelected s)) = config_timeout s"
  "layerMarkers (snd (toogleFoldNonSelected s)) = layerMarkers s"
  "resultCount (snd (toogleFoldNonSelected s)) = resultCount s"
  "emitted (snd (toogleFoldNonSelected s)) = emitted s"
  "buffer_text (editors (snd (toogleFoldNonSelected s)) e) = buffer_text (editors s e)"
  by (simp_all add: toogleFoldNonSelected_def foldNonSelected_eq unfoldNonSelected_eq
      split: option.split)

lemma toogleFoldNonSelected_throws:
  "fst (toogleFoldNonSelected s) = (if getActiveEditor s = None then Threw TypeError else Returned)"
  by (simp add: toogleFoldNonSelected_def foldNonSelected_eq unfoldNonSelected_eq
      split: option.split)

text \<open>An emission is recorded; its listeners change what the toggle changes.\<close>

lemma emit_frame [simp]:
  "editorToMarkerLayerMap (snd (emit eventName s)) = editorToMarkerLayerMap s"
  "disabled (snd (emit eventName s)) = disabled s"
  "enableAutofold (snd (emit eventName s)) = enableAutofold s"
  "handleSelectionDebounce (snd (emit eventName s)) = handleSelectionDebounce s"
  "selectionSubscription (snd (emit eventName s)) = selectionSubscription s"
  "editorSubscriptions_disposed (snd (emit eventName s)) = editorSubscriptions_disposed s"
  "activeItemSubscription_disposed (snd (emit eventName s)) = activeItemSubscription_disposed s"
  "handleSelectionCalls (snd (emit eventName s)) = handleSelectionCalls s"
  "nextLayer (snd (emit eventName s)) = nextLayer s"
  "textEditors (snd (emit eventName s)) = textEditors s"
  "activeEditor (snd (emit eventName s)) = activeEditor s"
  "config_timeout (snd (emit eventName s)) = config_timeout s"
  "layerMarkers (snd (emit eventName s)) = layerMarkers s"
  "resultCount (snd (emit eventName s)) = resultCount s"
  "emitted (snd (emit eventName s)) = emitted s @ [eventName]"
  "buffer_text (editors (snd (emit eventName s)) e) = buffer_text (editors s e)"
  by (simp_all add: emit_def Let_def)

lemma emit_throws:
  "fst (emit ''did-remove-marker-layer'' s)
     = (if enableAutofold s \<and> getActiveEditor s = None then Threw TypeError else Returned)"
  by (simp add: emit_def Let_def toogleFoldNonSelected_throws getActiveEditor_def)

text \<open>\<open>removeMarkers\<close>: the layers of the entry, the result count, and the emission.\<close>

lemma removeMarkers_frame [simp]:
  "editorToMarkerLayerMap (snd (removeMarkers editorId s)) = editorToMarkerLayerMap s"
  "disabled (snd (removeMarkers editorId s)) = disabled s"
  "enableAutofold (snd (removeMarkers editorId s)) = enableAutofold s"
  "handleSelectionDebounce (snd (removeMarkers editorId s)) = handleSelectionDebounce s"
  "selectionSubscription (snd (removeMarkers editorId s)) = selectionSubscription s"
  "editorSubscriptions_disposed (snd (removeMarkers editorId s)) = editorSubscriptions_disposed s"
  "activeItemSubscription_disposed (snd (removeMarkers editorId s)) = activeItemSubscription_disposed s"
  "handleSelectionCalls (snd (removeMarkers editorId s)) = handleSelectionCalls s"
  "nextLayer (snd (removeMarkers editorId s)) = nextLayer s"
  "textEditors (snd (removeMarkers editorId s)) = textEditors s"
  "activeEditor (snd (removeMarkers editorId s)) = activeEditor s"
  "config_timeout (snd (removeMarkers editorId s)) = config_timeout s"
  "buffer_text (editors (snd (removeMarkers editorId s)) e) = buffer_text (editors s e)"
  by (simp_all add: removeMarkers_def clear_def Let_def split: option.split)

lemma removeMarkers_no_entry:
  "map_of (editorToMarkerLayerMap s) editorId = None \<Longrightarrow> removeMarkers editorId s = (Returned, s)"
  by (simp add: removeMarkers_def)

lemma removeMarkers_entry:
  assumes "map_of (editorToMarkerLayerMap s) editorId = Some ml"
  shows "layerMarkers (snd (removeMarkers editorId s))
           = (layerMarkers s)(visibleMarkerLayer ml := [], selectedMarkerLayer ml := [])"
    and "resultCount (snd (removeMarkers editorId s)) = 0"
    and "emitted (snd (removeMarkers editorId s)) = emitted s @ [''did-remove-marker-layer'']"
  using assms by (simp_all add: removeMarkers_def clear_def Let_def)

lemma removeMarkers_throws:
  "fst (removeMarkers editorId s)
     = (if map_of (editorToMarkerLayerMap s) editorId \<noteq> None \<and> enableAutofold s
           \<and> getActiveEditor s = None
        then Threw TypeError else Returned)"
  by (auto simp: removeMarkers_def clear_def Let_def emit_throws getActiveEditor_def
      split: option.split)

lemma removeMarkers_keeps_empty:
  "layerMarkers s h = [] \<Longrightarrow> layerMarkers (snd (removeMarkers editorId s)) h = []"
  by (cases "map_of (editorToMarkerLayerMap s) editorId")
     (simp_all add: removeMarkers_no_entry removeMarkers_entry)

text \<open>The \<open>forEach\<close> over the keys, \<open>removeAllMarkers\<close> and \<open>disable\<close>.\<close>

lemma forEach_removeMarkers_preserves:
  assumes "\<And>k s. P (snd (removeMarkers k s)) = P s"
  shows "P (snd (forEach_removeMarkers ids s)) = P s"
proof (induction ids arbitrary: s)
  case Nil
  show ?case by simp
next
  case (Cons k ids)
  obtain out s' where r: "removeMarkers k s = (out, s')" by (cases "removeMarkers k s")
  then have s': "P s' = P s" using assms[of k s] by simp
  show ?case
  proof (cases out)
    case Returned
    then show ?thesis using r s' Cons.IH[of s'] by simp
  next
    case (Threw e)
    then show ?thesis using r s' by simp
  qed
qed

lemma forEach_removeMarkers_frame [simp]:
  "editorToMarkerLayerMap (snd (forEach_removeMarkers ids s)) = editorToMarkerLayerMap s"
  "disabled (snd (forEach_removeMarkers ids s)) = disabled s"
  "enableAutofold (snd (forEach_removeMarkers ids s)) = enableAutofold s"
  "handleSelectionDebounce (snd (forEach_removeMarkers ids s)) = handleSelectionDebounce s"
  "selectionSubscription (snd (forEach_removeMarkers ids s)) = selectionSubscription s"
  "editorSubscriptions_disposed (snd (forEach_removeMarkers ids s)) = editorSubscriptions_disposed s"
  "activeItemSubscription_disposed (snd (forEach_removeMarkers ids s)) = activeItemSubscription_disposed s"
  "handleSelectionCalls (snd (forEach_removeMarkers ids s)) = handleSelectionCalls s"
  "nextLayer (snd (forEach_removeMarkers ids s)) = nextLayer s"
  "textEditors (snd (forEach_removeMarkers ids s)) = textEditors s"
  "activeEditor (snd (forEach_removeMarkers ids s)) = activeEditor s"
  "config_timeout (snd (forEach_removeMarkers ids s)) = config_timeout s"
  "buffer_text (editors (snd (forEach_removeMarkers ids s)) e) = buffer_text (editors s e)"
  by (rule forEach_removeMarkers_preserves, simp)+

lemma removeAllMarkers_frame [simp]:
  "editorToMarkerLayerMap (snd (removeAllMarkers s)) = editorToMarkerLayerMap s"
  "disabled (snd (removeAllMarkers s)) = disabled s"
  "enableAutofold (snd (removeAllMarkers s)) = enableAutofold s"
  "handleSelectionDebounce (snd (removeAllMarkers s)) = handleSelectionDebounce s"
  "selectionSubscription (snd (removeAllMarkers s)) = selectionSubscription s"
  "editorSubscriptions_disposed (snd (removeAllMarkers s)) = editorSubscriptions_disposed s"
  "activeItemSubscription_disposed (snd (removeAllMarkers s)) = activeItemSubscription_disposed s"
  "handleSelectionCalls (snd (removeAllMarkers s)) = handleSelectionCalls s"
  "nextLayer (snd (removeAllMarkers s)) = nextLayer s"
  "textEditors (snd (removeAllMarkers s)) = textEditors s"
  "activeEditor (snd (removeAllMarkers s)) = activeEditor s"
  "config_timeout (snd (removeAllMarkers s)) = config_timeout s"
  "buffer_text (editors (snd (removeAllMarkers s)) e) = buffer_text (editors s e)"
  by (simp_all add: removeAllMarkers_def)

lemma disable_frame [simp]:
  "editorToMarkerLayerMap (snd (disable s)) = editorToMarkerLayerMap s"
  "disabled (snd (disable s)) = True"
  "enableAutofold (snd (disable s)) = enableAutofold s"
  "handleSelectionDebounce (snd (disable s)) = handleSelectionDebounce s"
  "selectionSubscription (snd (disable s)) = selectionSubscription s"
  "editorSubscriptions_disposed (snd (disable s)) = editorSubscriptions_disposed s"
  "activeItemSubscription_disposed (snd (disable s)) = activeItemSubscription_disposed s"
  "handleSelectionCalls (snd (disable s)) = handleSelectionCalls s"
  "nextLayer (snd (disable s)) = nextLayer s"
  "textEditors (snd (disable s)) = textEditors s"
  "activeEditor (snd (disable s)) = activeEditor s"
  "config_timeout (snd (disable s)) = config_timeout s"
  by (simp_all add: disable_def)

subsection \<open>The pipeline, the subscriptions and the registry in closed form\<close>

lemma debouncedHandleSelection_eq:
  "debouncedHandleSelection s =
     s\<lparr>handleSelectionDebounce :=
         Some (case handleSelectionDebounce s of
                 None \<Rightarrow> \<lparr>wait = config_timeout s, pending = True\<rparr>
               | Some d \<Rightarrow> d\<lparr>pending := True\<rparr>)\<rparr>"
  by (simp add: debouncedHandleSelection_def debounce_def Let_def split: option.split)

lemma dispose_selectionSubscription_eq:
  "dispose_selectionSubscription s =
     s\<lparr>selectionSubscription :=
         map_option (\<lambda>sub. sub\<lparr>sub_disposed := True\<rparr>) (selectionSubscription s)\<rparr>"
  by (cases "selectionSubscription s") (simp_all add: dispose_selectionSubscription_def)

lemma subscribeToActiveTextEditor_eq:
  "subscribeToActiveTextEditor s =
     (case getActiveEditor s of
        None \<Rightarrow> dispose_selectionSubscription s
      | Some editor \<Rightarrow>
          s\<lparr>selectionSubscription := Some \<lparr>sub_editor = editor, sub_disposed = False\<rparr>,
            handleSelectionCalls := handleSelectionCalls s + 1\<rparr>)"
  by (simp add: subscribeToActiveTextEditor_def dispose_selectionSubscription_eq
      getActiveEditor_def searchModel_handleSelection_def Let_def split: option.split)

lemma debounce_timeout_eq:
  "debounce_timeout s =
     (case handleSelectionDebounce s of
        None \<Rightarrow> s
      | Some d \<Rightarrow>
          if pending d
          then s\<lparr>handleSelectionDebounce := Some (d\<lparr>pending := False\<rparr>),
                 handleSelectionCalls := handleSelectionCalls s + 1\<rparr>
          else s)"
  by (simp add: debounce_timeout_def searchModel_handleSelection_def split: option.split)

lemma destroy_eq:
  "destroy s =
     (case handleSelectionDebounce s of
        None \<Rightarrow> (Threw TypeError, s)
      | Some d \<Rightarrow>
          (Returned,
           s\<lparr>handleSelectionDebounce := Some (d\<lparr>pending := False\<rparr>),
             activeItemSubscription_disposed := True,
             selectionSubscription :=
               map_option (\<lambda>sub. sub\<lparr>sub_disposed := True\<rparr>) (selectionSubscription s),
             editorSubscriptions_disposed := True\<rparr>))"
  by (simp add: destroy_def dispose_selectionSubscription_eq Let_def split: option.split)

lemma setupMarkerLayers_eq:
  "setupMarkerLayers editor s =
     s\<lparr>layerMarkers := (layerMarkers s)(nextLayer s := [], nextLayer s + 1 := []),
       nextLayer := nextLayer s + 2,
       editorToMarkerLayerMap :=
         AList.update editor
           \<lparr>visibleMarkerLayer = nextLayer s, selectedMarkerLayer = nextLayer s + 1\<rparr>
           (editorToMarkerLayerMap s)\<rparr>"
  by (simp add: setupMarkerLayers_def addMarkerLayer_def Let_def)

lemma dispatch_WillDestroyPaneItem_TextEditor:
  "dispatch (WillDestroyPaneItem (TextEditor e)) s =
     (if editorSubscriptions_disposed s then (Returned, s)
      else if fst (removeMarkers e s) = Returned
      then (Returned,
            (snd (removeMarkers e s))
              \<lparr>editorToMarkerLayerMap := AList.delete e (editorToMarkerLayerMap s)\<rparr>)
      else removeMarkers e s)"
proof -
  obtain out s' where r: "removeMarkers e s = (out, s')" by (cases "removeMarkers e s")
  have "editorToMarkerLayerMap s' = editorToMarkerLayerMap s"
    using removeMarkers_frame(1)[of e s] r by simp
  then show ?thesis using r by (cases out) simp_all
qed

subsection \<open>The example states\<close>

subsection \<open>The active editor and the current complement\<close>

lemma getActiveEditor_subscribe [simp]:
  "getActiveEditor (subscribeToActiveTextEditor s) = getActiveEditor s"
  by (simp add: subscribeToActiveTextEditor_def dispose_selectionSubscription_def
      getActiveEditor_def searchModel_handleSelection_def Let_def split: option.split)

lemma getActiveEditor_debounced [simp]:
  "getActiveEditor (debouncedHandleSelection s) = getActiveEditor s"
  by (simp add: debouncedHandleSelection_def getActiveEditor_def Let_def split: option.split)

lemma getActiveEditor_DidChangeActivePaneItem:
  "getActiveEditor (snd (dispatch (DidChangeActivePaneItem a) s)) = a"
  by (simp add: Let_def) (simp add: getActiveEditor_def)

lemma currentComplement_cong:
  "editorToMarkerLayerMap s' = editorToMarkerLayerMap s \<Longrightarrow>
   layerMarkers s' = layerMarkers s \<Longrightarrow>
   buffer_text (editors s' e) = buffer_text (editors s e) \<Longrightarrow>
   currentComplement e s' = currentComplement e s"
  by (simp add: currentComplement_def collectRanges_def split: option.split)

subsection \<open>The example states\<close>

lemma ex_manager_fields:
  "editorToMarkerLayerMap ex_manager = [(7, \<lparr>visibleMarkerLayer = 0, selectedMarkerLayer = 1\<rparr>)]"
  "handleSelectionDebounce ex_manager = Some \<lparr>wait = 250, pending = True\<rparr>"
  "selectionSubscription ex_manager = Some \<lparr>sub_editor = 7, sub_disposed = False\<rparr>"
  "handleSelectionCalls ex_manager = 1"
  "activeEditor ex_manager = Some 7"
  "hideCandids ex_manager = None"
  "enableAutofold ex_manager = False"
  "layerMarkers ex_manager = (\<lambda>h. [])"
  "editors ex_manager = (\<lambda>e. ex_editor)"
  "nextLayer ex_manager = 2"
  "emitted ex_manager = []"
  "config_timeout ex_manager = 250"
  "editorSubscriptions_disposed ex_manager = False"
  "activeItemSubscription_disposed ex_manager = False"
  by (simp_all add: ex_manager_def new_SelectionManager_def ex_workspace_def
      setupMarkerLayers_eq enable_def debouncedHandleSelection_eq
      subscribeToActiveTextEditor_eq getActiveEditor_def fun_eq_iff)

lemma ex_highlighted_fields:
  "editorToMarkerLayerMap ex_highlighted = [(7, \<lparr>visibleMarkerLayer = 0, selectedMarkerLayer = 1\<rparr>)]"
  "layerMarkers ex_highlighted
     = (\<lambda>h. [])(0 := [\<lparr>start = \<lparr>row = 0, column = 0\<rparr>, endp = \<lparr>row = 0, column = 3\<rparr>\<rparr>])"
  "nextLayer ex_highlighted = 2"
  "activeEditor ex_highlighted = Some 7"
  "hideCandids ex_highlighted = None"
  "buffer_text (editors ex_highlighted e) = ''abc\<newline>xyz''"
  by (simp_all add: ex_highlighted_def ex_manager_fields ex_editor_def)

lemma ex_no_active_fields:
  "editorToMarkerLayerMap ex_no_active = [(7, \<lparr>visibleMarkerLayer = 0, selectedMarkerLayer = 1\<rparr>)]"
  "activeEditor ex_no_active = None"
  "hideCandids ex_no_active = None"
  "emitted ex_no_active = []"
  by (simp_all add: ex_no_active_def Let_def subscribeToActiveTextEditor_eq
      dispose_selectionSubscription_eq debouncedHandleSelection_eq getActiveEditor_def
      ex_highlighted_def ex_manager_fields)

lemma ex_no_active_active: "getActiveEditor ex_no_active = None"
  unfolding ex_no_active_def by (rule getActiveEditor_DidChangeActivePaneItem)

lemma ex_highlighted_active: "getActiveEditor ex_highlighted = Some 7"
  by (simp add: getActiveEditor_def ex_highlighted_def ex_manager_fields)

lemma ex_highlighted_fold:
  "hideCandids (snd (foldNonSelected ex_highlighted))
     = Some [\<lparr>cstart = \<lparr>crow = 1, ccolumn = Some 0\<rparr>, cend = \<lparr>crow = 1, ccolumn = Some 3\<rparr>\<rparr>]"
  by (simp add: foldNonSelected_eq ex_highlighted_active)
     (simp add: currentComplement_def ex_highlighted_def ex_manager_fields collectRanges_def
        ex_editor_def rowLengths_of_def computeHideCandids_eq complement_spec_def head_spec_def
        tail_spec_def LAST_LINE_def at_index_def)

lemma ex_manager_no_highlights:
  "getActiveEditor ex_manager = Some 7" "no_highlights 7 ex_manager"
  by (simp_all add: getActiveEditor_def no_highlights_def layers_empty_def ex_manager_fields)

section \<open>Commands on the active editor\<close>

text \<open>
  C3. With no active editor, \<open>selectAll\<close>, \<open>foldNonSelected\<close>, \<open>unfoldNonSelected\<close> and
  \<open>toogleFoldNonSelected\<close> are no silent no-ops: each of them reads a property of the
  result of \<open>getActiveEditor()\<close> without the check that \<open>subscribeToActiveTextEditor\<close>
  makes, and throws a TypeError.
\<close>

theorem no_active_editor_throws:
  assumes "getActiveEditor s = None"
  shows "fst (selectAll s) = Threw TypeError
       \<and> fst (foldNonSelected s) = Threw TypeError
       \<and> fst (unfoldNonSelected s) = Threw TypeError
       \<and> fst (toogleFoldNonSelected s) = Threw TypeError"
  using assms
  by (simp add: selectAll_def foldNonSelected_eq unfoldNonSelected_def toogleFoldNonSelected_def
      split: option.split)

text \<open>The four commands after the active pane item became something that is no text editor.\<close>

theorem no_active_editor_throws_witness:
  "getActiveEditor ex_no_active = None
   \<and> fst (selectAll ex_no_active) = Threw TypeError
   \<and> fst (foldNonSelected ex_no_active) = Threw TypeError
   \<and> fst (unfoldNonSelected ex_no_active) = Threw TypeError
   \<and> fst (toogleFoldNonSelected ex_no_active) = Threw TypeError"
  using no_active_editor_throws[OF ex_no_active_active] ex_no_active_active by simp

text \<open>
  C4, as amended. With an active editor, \<open>foldNonSelected\<close> followed by
  \<open>unfoldNonSelected\<close> returns from both calls, leaves the editor without a fold and
  \<open>hideCandids\<close> null. Two calls of \<open>toogleFoldNonSelected\<close> return and bring
  \<open>hideCandids\<close> back to its value before them when that value is null, or is the
  complement of the editor's current highlights over its current text.
\<close>

theorem fold_unfold_and_toggle_twice:
  assumes "getActiveEditor s = Some e"
  shows "fst (foldNonSelected s) = Returned
       \<and> fst (unfoldNonSelected (snd (foldNonSelected s))) = Returned
       \<and> folds (editors (snd (unfoldNonSelected (snd (foldNonSelected s)))) e) = []
       \<and> hideCandids (snd (unfoldNonSelected (snd (foldNonSelected s)))) = None
       \<and> (hideCandids s = None \<or> hideCandids s = Some (currentComplement e s) \<longrightarrow>
            fst (toogleFoldNonSelected s) = Returned
          \<and> fst (toogleFoldNonSelected (snd (toogleFoldNonSelected s))) = Returned
          \<and> hideCandids (snd (toogleFoldNonSelected (snd (toogleFoldNonSelected s))))
              = hideCandids s)"
proof -
  have a: "getActiveEditor (snd (foldNonSelected s)) = Some e"
    "getActiveEditor (snd (unfoldNonSelected s)) = Some e"
    using assms by (simp_all add: foldNonSelected_eq unfoldNonSelected_def getActiveEditor_def unfoldAll_def)
  have fu: "fst (foldNonSelected s) = Returned
       \<and> fst (unfoldNonSelected (snd (foldNonSelected s))) = Returned
       \<and> folds (editors (snd (unfoldNonSelected (snd (foldNonSelected s)))) e) = []
       \<and> hideCandids (snd (unfoldNonSelected (snd (foldNonSelected s)))) = None"
    using assms a by (simp add: unfoldNonSelected_def unfoldAll_def) (simp add: foldNonSelected_eq)
  have t1: "hideCandids s = None \<Longrightarrow>
      fst (toogleFoldNonSelected s) = Returned
    \<and> fst (toogleFoldNonSelected (snd (toogleFoldNonSelected s))) = Returned
    \<and> hideCandids (snd (toogleFoldNonSelected (snd (toogleFoldNonSelected s)))) = hideCandids s"
    using assms
    by (simp add: toogleFoldNonSelected_def foldNonSelected_eq unfoldNonSelected_def
        getActiveEditor_def unfoldAll_def)
  have t2: "fst (toogleFoldNonSelected s) = Returned
    \<and> fst (toogleFoldNonSelected (snd (toogleFoldNonSelected s))) = Returned
    \<and> hideCandids (snd (toogleFoldNonSelected (snd (toogleFoldNonSelected s)))) = hideCandids s"
    if h: "hideCandids s = Some (currentComplement e s)"
  proof -
    let ?u = "snd (unfoldNonSelected s)"
    have u: "toogleFoldNonSelected s = unfoldNonSelected s"
      using h by (simp add: toogleFoldNonSelected_def)
    have r: "fst (unfoldNonSelected s) = Returned" and n: "hideCandids ?u = None"
      using assms by (simp_all add: unfoldNonSelected_def)
    have cc: "currentComplement e ?u = currentComplement e s"
      using assms by (intro currentComplement_cong) (simp_all add: unfoldNonSelected_def unfoldAll_def)
    have f: "toogleFoldNonSelected ?u = foldNonSelected ?u"
      using n by (simp add: toogleFoldNonSelected_def)
    have "fst (foldNonSelected ?u) = Returned"
      and "hideCandids (snd (foldNonSelected ?u)) = Some (currentComplement e ?u)"
      using a(2) by (simp_all add: foldNonSelected_eq)
    then show ?thesis using u r f cc h by simp
  qed
  show ?thesis using fu t1 t2 by blast
qed

text \<open>The highlighted example, which is not folded: fold and unfold, and two toggles.\<close>

theorem fold_unfold_and_toggle_twice_witness:
  "getActiveEditor ex_highlighted = Some 7
   \<and> hideCandids ex_highlighted = None
   \<and> fst (foldNonSelected ex_highlighted) = Returned
   \<and> fst (unfoldNonSelected (snd (foldNonSelected ex_highlighted))) = Returned
   \<and> folds (editors (snd (unfoldNonSelected (snd (foldNonSelected ex_highlighted)))) 7) = []
   \<and> hideCandids (snd (unfoldNonSelected (snd (foldNonSelected ex_highlighted)))) = None
   \<and> hideCandids (snd (toogleFoldNonSelected (snd (toogleFoldNonSelected ex_highlighted)))) = None"
proof -
  have h: "hideCandids ex_highlighted = None"
    by (simp add: ex_highlighted_def ex_manager_fields)
  show ?thesis
    using fold_unfold_and_toggle_twice[OF ex_highlighted_active] h ex_highlighted_active
    by simp
qed

text \<open>
  C4 as stated fails when the fold state is stale. The editor holds \<open>abc\<close>, \<open>xyz\<close> with
  a highlight on row 0 and is folded, which stores \<open>[{1,0}-{1,3}]\<close>; then a line \<open>q\<close> is
  appended, the highlight staying as it is. Two toggles, with no highlight change between
  them, unfold and fold again and end with \<open>[{1,0}-{2,1}]\<close>, not with the fold state they
  started from.
\<close>

theorem toggle_twice_from_stale_fold_state:
  "getActiveEditor ex_edited = Some 7
   \<and> collectRanges \<lparr>visibleMarkerLayer = 0, selectedMarkerLayer = 1\<rparr> ex_edited
       = [\<lparr>start = \<lparr>row = 0, column = 0\<rparr>, endp = \<lparr>row = 0, column = 3\<rparr>\<rparr>]
   \<and> hideCandids ex_edited
       = Some [\<lparr>cstart = \<lparr>crow = 1, ccolumn = Some 0\<rparr>, cend = \<lparr>crow = 1, ccolumn = Some 3\<rparr>\<rparr>]
   \<and> fst (toogleFoldNonSelected ex_edited) = Returned
   \<and> fst (toogleFoldNonSelected (snd (toogleFoldNonSelected ex_edited))) = Returned
   \<and> hideCandids (snd (toogleFoldNonSelected (snd (toogleFoldNonSelected ex_edited))))
       = Some [\<lparr>cstart = \<lparr>crow = 1, ccolumn = Some 0\<rparr>, cend = \<lparr>crow = 2, ccolumn = Some 1\<rparr>\<rparr>]"
proof -
  have f: "editorToMarkerLayerMap ex_edited = [(7, \<lparr>visibleMarkerLayer = 0, selectedMarkerLayer = 1\<rparr>)]"
    "layerMarkers ex_edited = (\<lambda>h. [])(0 := [\<lparr>start = \<lparr>row = 0, column = 0\<rparr>, endp = \<lparr>row = 0, column = 3\<rparr>\<rparr>])"
    "buffer_text (editors ex_edited 7) = ''abc\<newline>xyz\<newline>q''"
    "activeEditor ex_edited = Some 7"
    by (simp_all add: ex_edited_def Let_def foldNonSelected_eq ex_highlighted_active)
       (simp_all add: ex_highlighted_def ex_manager_fields)
  have h: "hideCandids ex_edited
       = Some [\<lparr>cstart = \<lparr>crow = 1, ccolumn = Some 0\<rparr>, cend = \<lparr>crow = 1, ccolumn = Some 3\<rparr>\<rparr>]"
    using ex_highlighted_fold by (simp add: ex_edited_def Let_def)
  have c: "currentComplement 7 ex_edited
       = [\<lparr>cstart = \<lparr>crow = 1, ccolumn = Some 0\<rparr>, cend = \<lparr>crow = 2, ccolumn = Some 1\<rparr>\<rparr>]"
    by (simp add: currentComplement_def f collectRanges_def
        rowLengths_of_def computeHideCandids_eq complement_spec_def head_spec_def
        tail_spec_def LAST_LINE_def at_index_def)
  have c': "currentComplement 7 (ex_edited\<lparr>editors := (editors ex_edited)(7 := editors ex_edited 7\<lparr>folds := []\<rparr>), hideCandids := None\<rparr>) = currentComplement 7 ex_edited"
    by (rule currentComplement_cong) simp_all
  show ?thesis
    by (simp add: toogleFoldNonSelected_def h unfoldNonSelected_def foldNonSelected_eq
        getActiveEditor_def f unfoldAll_def c c' collectRanges_def)
qed

text \<open>
  C5, as amended. When the active editor has no registry entry, or its two layers hold no
  marker, \<open>foldNonSelected\<close> returns, requests no fold and changes nothing but
  \<open>hideCandids\<close>, which it sets to the empty list.
\<close>

theorem foldNonSelected_without_highlights:
  assumes "getActiveEditor s = Some e" and "no_highlights e s"
  shows "foldNonSelected s = (Returned, s\<lparr>hideCandids := Some []\<rparr>)"
proof -
  have "currentComplement e s = []"
    using assms(2)
    by (simp add: no_highlights_def currentComplement_def layers_empty_def collectRanges_def
        computeHideCandids_def split: option.splits)
  then show ?thesis using assms(1) by (simp add: foldNonSelected_eq)
qed

text \<open>The manager as constructed: the active editor has an entry and two empty layers.\<close>

theorem foldNonSelected_without_highlights_witness:
  "getActiveEditor ex_manager = Some 7 \<and> no_highlights 7 ex_manager
   \<and> foldNonSelected ex_manager = (Returned, ex_manager\<lparr>hideCandids := Some []\<rparr>)"
  using foldNonSelected_without_highlights[OF ex_manager_no_highlights] ex_manager_no_highlights
  by simp

text \<open>
  C5 as stated fails: line 182 assigns \<open>[]\<close> to \<open>this.hideCandids\<close> before the guards, so
  the fold state is no longer null after the call, although nothing is highlighted.
\<close>

theorem foldNonSelected_without_highlights_changes_fold_state:
  "getActiveEditor ex_manager = Some 7 \<and> no_highlights 7 ex_manager
   \<and> hideCandids ex_manager = None
   \<and> hideCandids (snd (foldNonSelected ex_manager)) = Some []"
  by (simp add: ex_manager_no_highlights foldNonSelected_eq ex_manager_fields)
     (simp add: currentComplement_def ex_manager_fields collectRanges_def computeHideCandids_def)

section \<open>The registry\<close>

subsection \<open>Handles held by the registry\<close>

lemma registry_handles_Cons [simp]:
  "registry_handles ((e, lp) # m)
     = visibleMarkerLayer lp # selectedMarkerLayer lp # registry_handles m"
  by (simp add: registry_handles_def)

lemma registry_handles_Nil [simp]: "registry_handles [] = []"
  by (simp add: registry_handles_def)

lemma map_of_registry_handles:
  "map_of m e = Some lp \<Longrightarrow>
   visibleMarkerLayer lp \<in> set (registry_handles m) \<and> selectedMarkerLayer lp \<in> set (registry_handles m)"
  by (induction m) (auto split: if_splits)

lemma registry_handles_update_subset:
  "set (registry_handles (AList.update e lp m))
     \<subseteq> {visibleMarkerLayer lp, selectedMarkerLayer lp} \<union> set (registry_handles m)"
  by (induction m) auto

lemma registry_handles_update_distinct:
  "distinct (registry_handles m) \<Longrightarrow>
   visibleMarkerLayer lp \<noteq> selectedMarkerLayer lp \<Longrightarrow>
   visibleMarkerLayer lp \<notin> set (registry_handles m) \<Longrightarrow>
   selectedMarkerLayer lp \<notin> set (registry_handles m) \<Longrightarrow>
   distinct (registry_handles (AList.update e lp m))"
proof (induction m)
  case Nil
  then show ?case by simp
next
  case (Cons p m)
  obtain k x where p: "p = (k, x)" by (cases p)
  show ?case
  proof (cases "k = e")
    case True
    then show ?thesis using Cons.prems p by simp
  next
    case False
    have sub: "set (registry_handles (AList.update e lp m))
        \<subseteq> {visibleMarkerLayer lp, selectedMarkerLayer lp} \<union> set (registry_handles m)"
      by (rule registry_handles_update_subset)
    have "distinct (registry_handles (AList.update e lp m))"
      using Cons.prems p by (intro Cons.IH) simp_all
    then show ?thesis using False Cons.prems p sub by auto
  qed
qed

lemma registry_handles_update_old:
  "distinct (registry_handles m) \<Longrightarrow> map_of m e = Some old \<Longrightarrow>
   h \<in> {visibleMarkerLayer old, selectedMarkerLayer old} \<Longrightarrow>
   h \<notin> {visibleMarkerLayer lp, selectedMarkerLayer lp} \<Longrightarrow>
   h \<notin> set (registry_handles (AList.update e lp m))"
proof (induction m)
  case Nil
  then show ?case by simp
next
  case (Cons p m)
  obtain k x where p: "p = (k, x)" by (cases p)
  show ?case
  proof (cases "k = e")
    case True
    then show ?thesis using Cons.prems p by auto
  next
    case False
    then have m: "map_of m e = Some old" using Cons.prems(2) p by simp
    then have "h \<in> set (registry_handles m)"
      using map_of_registry_handles[OF m] Cons.prems(3) by auto
    moreover have "h \<notin> set (registry_handles (AList.update e lp m))"
      using Cons.prems p m by (intro Cons.IH) simp_all
    ultimately show ?thesis using False Cons.prems(1) p by auto
  qed
qed

lemma registry_handles_delete_subset:
  "set (registry_handles (AList.delete e m)) \<subseteq> set (registry_handles m)"
  by (induction m) auto

lemma registry_handles_delete_distinct:
  "distinct (registry_handles m) \<Longrightarrow> distinct (registry_handles (AList.delete e m))"
proof (induction m)
  case Nil
  then show ?case by simp
next
  case (Cons p m)
  obtain k x where p: "p = (k, x)" by (cases p)
  have sub: "set (registry_handles (AList.delete e m)) \<subseteq> set (registry_handles m)"
    by (rule registry_handles_delete_subset)
  show ?case using Cons p sub by auto
qed

lemma registry_ok_setupMarkerLayers:
  assumes "registry_ok s"
  shows "registry_ok (setupMarkerLayers editor s)"
proof -
  let ?lp = "\<lparr>visibleMarkerLayer = nextLayer s, selectedMarkerLayer = nextLayer s + 1\<rparr>"
  let ?m = "editorToMarkerLayerMap s"
  have d: "distinct (map fst ?m)" "distinct (registry_handles ?m)"
    and lt: "\<forall>h\<in>set (registry_handles ?m). h < nextLayer s"
    using assms by (simp_all add: registry_ok_def list_all_iff)
  have "distinct (map fst (AList.update editor ?lp ?m))"
    using d(1) by (rule distinct_update)
  moreover have "distinct (registry_handles (AList.update editor ?lp ?m))"
    using d(2) lt by (intro registry_handles_update_distinct) auto
  moreover have "\<forall>h\<in>set (registry_handles (AList.update editor ?lp ?m)). h < nextLayer s + 2"
    using registry_handles_update_subset[of editor ?lp ?m] lt by fastforce
  ultimately show ?thesis
    by (simp add: registry_ok_def setupMarkerLayers_eq list_all_iff)
qed

subsection \<open>The registry stays well-formed along every run\<close>

lemma registry_ok_cong:
  "editorToMarkerLayerMap s' = editorToMarkerLayerMap s \<Longrightarrow> nextLayer s' = nextLayer s \<Longrightarrow>
   registry_ok s' = registry_ok s"
  by (simp add: registry_ok_def)

lemma registry_ok_delete:
  assumes "registry_ok s"
  shows "registry_ok (s\<lparr>editorToMarkerLayerMap := AList.delete e (editorToMarkerLayerMap s)\<rparr>)"
proof -
  let ?m = "editorToMarkerLayerMap s"
  have "distinct (map fst (AList.delete e ?m))"
    using assms by (simp add: registry_ok_def distinct_delete)
  moreover have "distinct (registry_handles (AList.delete e ?m))"
    using assms by (simp add: registry_ok_def registry_handles_delete_distinct)
  moreover have "\<forall>h\<in>set (registry_handles (AList.delete e ?m)). h < nextLayer s"
    using assms registry_handles_delete_subset[of e ?m] by (auto simp: registry_ok_def list_all_iff)
  ultimately show ?thesis by (simp add: registry_ok_def list_all_iff)
qed

lemma registry_ok_invoke:
  "registry_ok s \<Longrightarrow> registry_ok (snd (invoke c s))"
proof (cases c)
  case Destroy
  then show "registry_ok s \<Longrightarrow> ?thesis"
    by (simp add: destroy_eq registry_ok_def split: option.split)
qed (simp_all add: registry_ok_def enable_def debouncedHandleSelection_eq selectAll_def
      setSelectedBufferRanges_def foldNonSelected_eq unfoldNonSelected_eq Let_def
      split: option.split)

lemma registry_ok_dispatch:
  assumes "registry_ok s"
  shows "registry_ok (snd (dispatch ev s))"
proof (cases ev)
  case (DidObserveTextEditor e)
  have "registry_ok (s\<lparr>textEditors := textEditors s @ [e]\<rparr>)"
    using assms by (simp add: registry_ok_def)
  then show ?thesis
    using DidObserveTextEditor registry_ok_setupMarkerLayers by (simp add: Let_def)
next
  case (WillDestroyPaneItem item)
  show ?thesis
  proof (cases item)
    case (TextEditor e)
    have r: "registry_ok (snd (removeMarkers e s))"
      using assms by (simp add: registry_ok_def)
    have "registry_ok ((snd (removeMarkers e s))
        \<lparr>editorToMarkerLayerMap := AList.delete e (editorToMarkerLayerMap (snd (removeMarkers e s)))\<rparr>)"
      using r by (rule registry_ok_delete)
    then show ?thesis
      unfolding WillDestroyPaneItem TextEditor dispatch_WillDestroyPaneItem_TextEditor
      using assms r by simp
  next
    case OtherItem
    then show ?thesis using assms WillDestroyPaneItem by simp
  qed
next
  case (DidChangeActivePaneItem a)
  then show ?thesis
    using assms
    by (simp add: registry_ok_def Let_def subscribeToActiveTextEditor_eq
        dispose_selectionSubscription_eq debouncedHandleSelection_eq getActiveEditor_def
        split: option.split)
next
  case (DidAddSelection e)
  then show ?thesis using assms by (simp add: registry_ok_def debouncedHandleSelection_eq)
next
  case (DidChangeSelectionRange e)
  then show ?thesis using assms by (simp add: registry_ok_def debouncedHandleSelection_eq)
next
  case (DidChangeTimeout v)
  then show ?thesis using assms by (simp add: registry_ok_def debouncedHandleSelection_eq)
next
  case DebounceTimeout
  then show ?thesis using assms by (simp add: registry_ok_def debounce_timeout_eq split: option.split)
qed

lemma registry_ok_run: "registry_ok s \<Longrightarrow> registry_ok (run as s)"
proof (induction as arbitrary: s)
  case Nil
  then show ?case by simp
next
  case (Cons a as)
  have "registry_ok (snd (perform a s))"
    using Cons.prems by (cases a) (simp_all add: registry_ok_invoke registry_ok_dispatch)
  then show ?case using Cons.IH by simp
qed

lemma registry_ok_foldl_setup:
  "registry_ok s \<Longrightarrow> registry_ok (foldl (\<lambda>st e. setupMarkerLayers e st) s es)"
  by (induction es arbitrary: s) (simp_all add: registry_ok_setupMarkerLayers)

lemma registry_ok_new: "registry_ok (new_SelectionManager w)"
proof -
  let ?s0 = "w\<lparr>editorToMarkerLayerMap := [], resultCount := 0, hideCandids := None,
                 disabled := False, enableAutofold := False,
                 handleSelectionDebounce := None, selectionSubscription := None,
                 editorSubscriptions_disposed := False,
                 activeItemSubscription_disposed := False,
                 emitted := [], handleSelectionCalls := 0\<rparr>"
  have "registry_ok ?s0" by (simp add: registry_ok_def)
  then have "registry_ok (foldl (\<lambda>st e. setupMarkerLayers e st) ?s0 (textEditors ?s0))"
    by (rule registry_ok_foldl_setup)
  then show ?thesis
    by (simp add: new_SelectionManager_def Let_def enable_def debouncedHandleSelection_eq
        subscribeToActiveTextEditor_eq dispose_selectionSubscription_eq getActiveEditor_def
        registry_ok_def split: option.split)
qed

subsection \<open>Claims on the registry\<close>

lemma ex_highlighted_ok: "registry_ok ex_highlighted"
proof -
  have "registry_ok ex_manager" unfolding ex_manager_def by (rule registry_ok_new)
  then show ?thesis by (simp add: ex_highlighted_def registry_ok_def)
qed

text \<open>
  C8. \<open>setupMarkerLayers\<close> stores as the editor's entry two layer handles that the host
  hands out anew: no entry of the registry held them, and their layers are empty. This
  also happens when the editor had an entry: the layers handed out before, those of the
  old entry among them, keep their markers, and no entry of the registry holds the old
  handles any more. The other entries stay as they are. The registry is taken as the
  manager builds it, which the constructor establishes and every run preserves.
\<close>

theorem setupMarkerLayers_replaces_entry:
  assumes "registry_ok s"
  shows "map_of (editorToMarkerLayerMap (setupMarkerLayers editor s)) editor
           = Some \<lparr>visibleMarkerLayer = nextLayer s, selectedMarkerLayer = nextLayer s + 1\<rparr>
       \<and> nextLayer s \<notin> set (registry_handles (editorToMarkerLayerMap s))
       \<and> nextLayer s + 1 \<notin> set (registry_handles (editorToMarkerLayerMap s))
       \<and> layerMarkers (setupMarkerLayers editor s) (nextLayer s) = []
       \<and> layerMarkers (setupMarkerLayers editor s) (nextLayer s + 1) = []
       \<and> (\<forall>h. h < nextLayer s \<longrightarrow>
             layerMarkers (setupMarkerLayers editor s) h = layerMarkers s h)
       \<and> (\<forall>old. map_of (editorToMarkerLayerMap s) editor = Some old \<longrightarrow>
             layerMarkers (setupMarkerLayers editor s) (visibleMarkerLayer old)
               = layerMarkers s (visibleMarkerLayer old)
           \<and> layerMarkers (setupMarkerLayers editor s) (selectedMarkerLayer old)
               = layerMarkers s (selectedMarkerLayer old)
           \<and> visibleMarkerLayer old
               \<notin> set (registry_handles (editorToMarkerLayerMap (setupMarkerLayers editor s)))
           \<and> selectedMarkerLayer old
               \<notin> set (registry_handles (editorToMarkerLayerMap (setupMarkerLayers editor s))))
       \<and> (\<forall>e. e \<noteq> editor \<longrightarrow>
             map_of (editorToMarkerLayerMap (setupMarkerLayers editor s)) e
               = map_of (editorToMarkerLayerMap s) e)
       \<and> registry_ok (setupMarkerLayers editor s)"
proof -
  let ?lp = "\<lparr>visibleMarkerLayer = nextLayer s, selectedMarkerLayer = nextLayer s + 1\<rparr>"
  let ?m = "editorToMarkerLayerMap s"
  let ?s' = "setupMarkerLayers editor s"
  have d: "distinct (registry_handles ?m)"
    and lt: "\<forall>h\<in>set (registry_handles ?m). h < nextLayer s"
    using assms by (simp_all add: registry_ok_def list_all_iff)
  have m': "editorToMarkerLayerMap ?s' = AList.update editor ?lp ?m"
    by (simp add: setupMarkerLayers_eq)
  have entry: "map_of (editorToMarkerLayerMap ?s') editor = Some ?lp"
    by (simp add: m' update_conv')
  have fresh: "nextLayer s \<notin> set (registry_handles ?m)" "nextLayer s + 1 \<notin> set (registry_handles ?m)"
    using lt by auto
  have empty: "layerMarkers ?s' (nextLayer s) = []" "layerMarkers ?s' (nextLayer s + 1) = []"
    by (simp_all add: setupMarkerLayers_eq)
  have kept: "layerMarkers ?s' h = layerMarkers s h" if "h < nextLayer s" for h
    using that by (simp add: setupMarkerLayers_eq)
  have old: "layerMarkers ?s' (visibleMarkerLayer old) = layerMarkers s (visibleMarkerLayer old)
           \<and> layerMarkers ?s' (selectedMarkerLayer old) = layerMarkers s (selectedMarkerLayer old)
           \<and> visibleMarkerLayer old \<notin> set (registry_handles (editorToMarkerLayerMap ?s'))
           \<and> selectedMarkerLayer old \<notin> set (registry_handles (editorToMarkerLayerMap ?s'))"
    if o: "map_of ?m editor = Some old" for old
  proof -
    have b: "visibleMarkerLayer old < nextLayer s" "selectedMarkerLayer old < nextLayer s"
      using map_of_registry_handles[OF o] lt by auto
    have "visibleMarkerLayer old \<notin> set (registry_handles (AList.update editor ?lp ?m))"
      using d o b by (intro registry_handles_update_old[where old = old]) auto
    moreover have "selectedMarkerLayer old \<notin> set (registry_handles (AList.update editor ?lp ?m))"
      using d o b by (intro registry_handles_update_old[where old = old]) auto
    ultimately show ?thesis using kept b by (simp add: m')
  qed
  have others: "map_of (editorToMarkerLayerMap ?s') e = map_of ?m e" if "e \<noteq> editor" for e
    using that by (simp add: m' update_conv')
  have ok: "registry_ok ?s'" using assms by (rule registry_ok_setupMarkerLayers)
  show ?thesis using entry fresh empty kept old others ok by blast
qed

text \<open>Editor 7 has the entry of layers 0 and 1, with a marker in layer 0; it is set up again.\<close>

theorem setupMarkerLayers_replaces_entry_witness:
  "registry_ok ex_highlighted
   \<and> map_of (editorToMarkerLayerMap ex_highlighted) 7
       = Some \<lparr>visibleMarkerLayer = 0, selectedMarkerLayer = 1\<rparr>
   \<and> map_of (editorToMarkerLayerMap (setupMarkerLayers 7 ex_highlighted)) 7
       = Some \<lparr>visibleMarkerLayer = 2, selectedMarkerLayer = 3\<rparr>
   \<and> layerMarkers (setupMarkerLayers 7 ex_highlighted) 0
       = [\<lparr>start = \<lparr>row = 0, column = 0\<rparr>, endp = \<lparr>row = 0, column = 3\<rparr>\<rparr>]
   \<and> 0 \<notin> set (registry_handles (editorToMarkerLayerMap (setupMarkerLayers 7 ex_highlighted)))
   \<and> 1 \<notin> set (registry_handles (editorToMarkerLayerMap (setupMarkerLayers 7 ex_highlighted)))"
proof -
  have o: "map_of (editorToMarkerLayerMap ex_highlighted) 7
       = Some \<lparr>visibleMarkerLayer = 0, selectedMarkerLayer = 1\<rparr>"
    by (simp add: ex_highlighted_fields)
  show ?thesis
    using setupMarkerLayers_replaces_entry[OF ex_highlighted_ok, of 7] ex_highlighted_ok o
    by (simp add: ex_highlighted_fields)
qed

text \<open>
  C9. Without an entry \<open>removeMarkers\<close> returns and changes nothing. With an entry it
  empties both layers, sets the result count to 0 and emits \<open>did-remove-marker-layer\<close>.
  When a text editor is closed and the handler returns, the entry is gone and a further
  \<open>removeMarkers\<close> changes nothing. But \<open>removeMarkers\<close> does throw: the emission runs the
  autofold listener, whose toggle throws a TypeError when \<open>enableAutofold\<close> is set and
  there is no active editor.
\<close>

theorem removeMarkers_lifecycle:
  "(map_of (editorToMarkerLayerMap s) editorId = None \<longrightarrow>
      removeMarkers editorId s = (Returned, s))
   \<and> (\<forall>ml. map_of (editorToMarkerLayerMap s) editorId = Some ml \<longrightarrow>
          layers_empty ml (snd (removeMarkers editorId s))
        \<and> resultCount (snd (removeMarkers editorId s)) = 0
        \<and> emitted (snd (removeMarkers editorId s)) = emitted s @ [''did-remove-marker-layer''])
   \<and> (fst (removeMarkers editorId s) = Threw TypeError \<longleftrightarrow>
          map_of (editorToMarkerLayerMap s) editorId \<noteq> None \<and> enableAutofold s
        \<and> getActiveEditor s = None)
   \<and> (\<not> editorSubscriptions_disposed s
        \<and> fst (dispatch (WillDestroyPaneItem (TextEditor editorId)) s) = Returned \<longrightarrow>
          map_of (editorToMarkerLayerMap
                    (snd (dispatch (WillDestroyPaneItem (TextEditor editorId)) s))) editorId = None
        \<and> removeMarkers editorId (snd (dispatch (WillDestroyPaneItem (TextEditor editorId)) s))
            = (Returned, snd (dispatch (WillDestroyPaneItem (TextEditor editorId)) s)))"
proof -
  let ?d = "dispatch (WillDestroyPaneItem (TextEditor editorId)) s"
  have a: "map_of (editorToMarkerLayerMap s) editorId = None \<longrightarrow>
      removeMarkers editorId s = (Returned, s)"
    by (simp add: removeMarkers_no_entry)
  have b: "layers_empty ml (snd (removeMarkers editorId s))
        \<and> resultCount (snd (removeMarkers editorId s)) = 0
        \<and> emitted (snd (removeMarkers editorId s)) = emitted s @ [''did-remove-marker-layer'']"
    if "map_of (editorToMarkerLayerMap s) editorId = Some ml" for ml
    using removeMarkers_entry[OF that] by (simp add: layers_empty_def)
  have c: "fst (removeMarkers editorId s) = Threw TypeError \<longleftrightarrow>
          map_of (editorToMarkerLayerMap s) editorId \<noteq> None \<and> enableAutofold s
        \<and> getActiveEditor s = None"
    by (simp add: removeMarkers_throws)
  have d: "map_of (editorToMarkerLayerMap (snd ?d)) editorId = None
        \<and> removeMarkers editorId (snd ?d) = (Returned, snd ?d)"
    if "\<not> editorSubscriptions_disposed s" "fst ?d = Returned"
  proof -
    have "map_of (editorToMarkerLayerMap (snd ?d)) editorId = None"
      using that
      by (simp add: dispatch_WillDestroyPaneItem_TextEditor delete_conv' del: dispatch.simps
          split: if_splits)
    then show ?thesis by (simp add: removeMarkers_no_entry)
  qed
  show ?thesis using a b c d by blast
qed

text \<open>With the autofold hook on and no active editor \<open>removeMarkers\<close> throws after its changes; for an editor without entry it changes nothing; and editor 7 is closed in the highlighted example.\<close>

theorem removeMarkers_lifecycle_witness:
  "map_of (editorToMarkerLayerMap ex_autofold_no_active) 7
     = Some \<lparr>visibleMarkerLayer = 0, selectedMarkerLayer = 1\<rparr>
   \<and> enableAutofold ex_autofold_no_active
   \<and> getActiveEditor ex_autofold_no_active = None
   \<and> fst (removeMarkers 7 ex_autofold_no_active) = Threw TypeError
   \<and> layers_empty \<lparr>visibleMarkerLayer = 0, selectedMarkerLayer = 1\<rparr>
        (snd (removeMarkers 7 ex_autofold_no_active))
   \<and> resultCount (snd (removeMarkers 7 ex_autofold_no_active)) = 0
   \<and> emitted (snd (removeMarkers 7 ex_autofold_no_active)) = [''did-remove-marker-layer'']
   \<and> map_of (editorToMarkerLayerMap ex_highlighted) 8 = None
   \<and> removeMarkers 8 ex_highlighted = (Returned, ex_highlighted)
   \<and> \<not> editorSubscriptions_disposed ex_highlighted
   \<and> fst (dispatch (WillDestroyPaneItem (TextEditor 7)) ex_highlighted) = Returned
   \<and> map_of (editorToMarkerLayerMap
               (snd (dispatch (WillDestroyPaneItem (TextEditor 7)) ex_highlighted))) 7 = None
   \<and> removeMarkers 7 (snd (dispatch (WillDestroyPaneItem (TextEditor 7)) ex_highlighted))
       = (Returned, snd (dispatch (WillDestroyPaneItem (TextEditor 7)) ex_highlighted))"
proof -
  have f: "map_of (editorToMarkerLayerMap ex_autofold_no_active) 7
     = Some \<lparr>visibleMarkerLayer = 0, selectedMarkerLayer = 1\<rparr>"
    "enableAutofold ex_autofold_no_active"
    "getActiveEditor ex_autofold_no_active = None"
    "emitted ex_autofold_no_active = []"
    by (simp_all add: ex_autofold_no_active_def ex_no_active_fields getActiveEditor_def)
  have g: "map_of (editorToMarkerLayerMap ex_highlighted) 8 = None"
    "\<not> editorSubscriptions_disposed ex_highlighted"
    by (simp_all add: ex_highlighted_fields ex_highlighted_def ex_manager_fields)
  have r: "fst (dispatch (WillDestroyPaneItem (TextEditor 7)) ex_highlighted) = Returned"
    unfolding dispatch_WillDestroyPaneItem_TextEditor
    by (simp add: removeMarkers_throws ex_highlighted_def ex_manager_fields)
  have 1: "fst (removeMarkers 7 ex_autofold_no_active) = Threw TypeError
   \<and> layers_empty \<lparr>visibleMarkerLayer = 0, selectedMarkerLayer = 1\<rparr>
        (snd (removeMarkers 7 ex_autofold_no_active))
   \<and> resultCount (snd (removeMarkers 7 ex_autofold_no_active)) = 0
   \<and> emitted (snd (removeMarkers 7 ex_autofold_no_active)) = [''did-remove-marker-layer'']"
    using removeMarkers_lifecycle[of ex_autofold_no_active 7] f by simp
  have 2: "removeMarkers 8 ex_highlighted = (Returned, ex_highlighted)"
    using removeMarkers_lifecycle[of ex_highlighted 8] g(1) by blast
  have 3: "map_of (editorToMarkerLayerMap
               (snd (dispatch (WillDestroyPaneItem (TextEditor 7)) ex_highlighted))) 7 = None
   \<and> removeMarkers 7 (snd (dispatch (WillDestroyPaneItem (TextEditor 7)) ex_highlighted))
       = (Returned, snd (dispatch (WillDestroyPaneItem (TextEditor 7)) ex_highlighted))"
    using removeMarkers_lifecycle[of ex_highlighted 7] g(2) r by blast
  show ?thesis using f g r 1 2 3 by simp
qed

section \<open>The debounced pipeline\<close>

subsection \<open>The delay of the wrapper along a run\<close>

lemma wait_invoke:
  assumes "handleSelectionDebounce s = Some d"
  shows "map_option wait (handleSelectionDebounce (snd (invoke c s))) = Some (wait d)"
  using assms
  by (cases c)
     (simp_all add: enable_def debouncedHandleSelection_eq destroy_eq selectAll_def
        setSelectedBufferRanges_def foldNonSelected_eq unfoldNonSelected_eq Let_def
        split: option.split)

lemma wait_dispatch:
  assumes "handleSelectionDebounce s = Some d"
  shows "map_option wait (handleSelectionDebounce (snd (dispatch ev s))) = Some (wait d)"
proof (cases ev)
  case (WillDestroyPaneItem item)
  show ?thesis
  proof (cases item)
    case (TextEditor e)
    show ?thesis
      unfolding WillDestroyPaneItem TextEditor dispatch_WillDestroyPaneItem_TextEditor
      using assms by simp
  next
    case OtherItem
    then show ?thesis using assms WillDestroyPaneItem by simp
  qed
next
  case (DidChangeActivePaneItem a)
  then show ?thesis
    using assms
    by (simp add: Let_def subscribeToActiveTextEditor_eq dispose_selectionSubscription_eq
        debouncedHandleSelection_eq getActiveEditor_def split: option.split)
qed (use assms in \<open>simp_all add: Let_def setupMarkerLayers_eq debouncedHandleSelection_eq
      debounce_timeout_eq\<close>)

lemma wait_run:
  "handleSelectionDebounce s = Some d \<Longrightarrow>
   map_option wait (handleSelectionDebounce (run as s)) = Some (wait d)"
proof (induction as arbitrary: s d)
  case Nil
  then show ?case by simp
next
  case (Cons a as)
  have "map_option wait (handleSelectionDebounce (snd (perform a s))) = Some (wait d)"
    using Cons.prems by (cases a) (simp_all add: wait_invoke wait_dispatch)
  then obtain d' where "handleSelectionDebounce (snd (perform a s)) = Some d'" "wait d' = wait d"
    by auto
  then show ?case using Cons.IH[of "snd (perform a s)" d'] by simp
qed

lemma foldl_setupMarkerLayers_frame:
  "handleSelectionDebounce (foldl (\<lambda>st e. setupMarkerLayers e st) s es) = handleSelectionDebounce s"
  "config_timeout (foldl (\<lambda>st e. setupMarkerLayers e st) s es) = config_timeout s"
  by (induction es arbitrary: s) (simp_all add: setupMarkerLayers_eq)

lemma new_SelectionManager_wrapper:
  "handleSelectionDebounce (new_SelectionManager w)
     = Some \<lparr>wait = config_timeout w, pending = True\<rparr>"
  by (simp add: new_SelectionManager_def Let_def enable_def debouncedHandleSelection_eq
      subscribeToActiveTextEditor_eq dispose_selectionSubscription_eq
      foldl_setupMarkerLayers_frame split: option.split)

text \<open>
  C7. The wrapper is built on the first call of \<open>debouncedHandleSelection\<close>, which the
  constructor makes, with the configuration value of that moment as its delay. From then
  on, whatever commands and host events follow, the manager holds a wrapper with that
  same delay: a change of the configuration value stores the new value, leaves the wrapper
  as it is but for a pending call, and that one call reaches the search model when the
  timer runs out.
\<close>

theorem debounce_delay_fixed_at_construction:
  "(handleSelectionDebounce s = None \<longrightarrow>
      handleSelectionDebounce (debouncedHandleSelection s)
        = Some \<lparr>wait = config_timeout s, pending = True\<rparr>)
   \<and> handleSelectionDebounce (new_SelectionManager w)
        = Some \<lparr>wait = config_timeout w, pending = True\<rparr>
   \<and> (\<forall>d. handleSelectionDebounce s = Some d \<longrightarrow>
          (\<forall>as. map_option wait (handleSelectionDebounce (run as s)) = Some (wait d))
        \<and> (\<forall>v. handleSelectionDebounce (snd (dispatch (DidChangeTimeout v) s))
                  = Some (d\<lparr>pending := True\<rparr>)
              \<and> config_timeout (snd (dispatch (DidChangeTimeout v) s)) = v
              \<and> handleSelectionCalls
                   (snd (dispatch DebounceTimeout (snd (dispatch (DidChangeTimeout v) s))))
                  = handleSelectionCalls s + 1))"
proof -
  have a: "handleSelectionDebounce s = None \<longrightarrow>
      handleSelectionDebounce (debouncedHandleSelection s)
        = Some \<lparr>wait = config_timeout s, pending = True\<rparr>"
    by (simp add: debouncedHandleSelection_eq)
  have c: "handleSelectionDebounce (snd (dispatch (DidChangeTimeout v) s))
                  = Some (d\<lparr>pending := True\<rparr>)
              \<and> config_timeout (snd (dispatch (DidChangeTimeout v) s)) = v
              \<and> handleSelectionCalls
                   (snd (dispatch DebounceTimeout (snd (dispatch (DidChangeTimeout v) s))))
                  = handleSelectionCalls s + 1"
    if "handleSelectionDebounce s = Some d" for d v
    using that by (simp add: debouncedHandleSelection_eq debounce_timeout_eq)
  show ?thesis using a new_SelectionManager_wrapper wait_run c by blast
qed

text \<open>The wrapper built at the value 250 keeps that delay while the value changes to 100 and to 50.\<close>

theorem debounce_delay_fixed_at_construction_witness:
  "handleSelectionDebounce ex_workspace = None
   \<and> handleSelectionDebounce (debouncedHandleSelection ex_workspace)
       = Some \<lparr>wait = 250, pending = True\<rparr>
   \<and> handleSelectionDebounce ex_manager = Some \<lparr>wait = 250, pending = True\<rparr>
   \<and> handleSelectionDebounce
        (run [Event (DidChangeTimeout 100), Event DebounceTimeout, Event (DidChangeTimeout 50)]
           ex_manager)
       = Some \<lparr>wait = 250, pending = True\<rparr>
   \<and> config_timeout
        (run [Event (DidChangeTimeout 100), Event DebounceTimeout, Event (DidChangeTimeout 50)]
           ex_manager) = 50"
proof -
  let ?r = "run [Event (DidChangeTimeout 100), Event DebounceTimeout, Event (DidChangeTimeout 50)]
           ex_manager"
  have n: "handleSelectionDebounce ex_workspace = None" "config_timeout ex_workspace = 250"
    by (simp_all add: ex_workspace_def)
  have h: "handleSelectionDebounce ex_manager = Some \<lparr>wait = 250, pending = True\<rparr>"
    by (simp add: ex_manager_fields)
  have b: "handleSelectionDebounce (debouncedHandleSelection ex_workspace)
       = Some \<lparr>wait = 250, pending = True\<rparr>"
    using debounce_delay_fixed_at_construction[of ex_workspace] n by simp
  have "\<forall>as. map_option wait (handleSelectionDebounce (run as ex_manager))
          = Some (wait \<lparr>wait = 250, pending = True\<rparr>)"
    using debounce_delay_fixed_at_construction[of ex_manager] h by blast
  then have "map_option wait (handleSelectionDebounce ?r) = Some (wait \<lparr>wait = 250, pending = True\<rparr>)"
    by (rule spec)
  then obtain z where z: "handleSelectionDebounce ?r = Some z" "wait z = 250"
    by auto
  have p: "map_option pending (handleSelectionDebounce ?r) = Some True"
    and c: "config_timeout ?r = 50"
    by (simp_all add: debouncedHandleSelection_eq debounce_timeout_eq h)
  have "z = \<lparr>wait = 250, pending = True\<rparr>" using z p by (cases z) simp
  then show ?thesis using n b h z c by simp
qed

subsection \<open>After \<open>destroy\<close>\<close>

text \<open>
  C6. \<open>destroy\<close> returns, cancels the pending call and disposes the subscriptions it
  holds: afterwards an observed editor, a closing pane item, a change of the active pane
  item, a selection event or the timer run no callback of the manager. The listener for
  the configuration value is not among them, since its subscription was never kept: a
  change of the value after \<open>destroy\<close> runs the debounced pipeline, and the search model
  is called when the timer runs out.
\<close>

theorem destroy_keeps_timeout_listener:
  assumes "handleSelectionDebounce s = Some d"
  shows "fst (destroy s) = Returned
       \<and> handleSelectionDebounce (snd (destroy s)) = Some (d\<lparr>pending := False\<rparr>)
       \<and> dispatch DebounceTimeout (snd (destroy s)) = (Returned, snd (destroy s))
       \<and> (\<forall>e. dispatch (DidObserveTextEditor e) (snd (destroy s))
                = (Returned, (snd (destroy s))\<lparr>textEditors := textEditors s @ [e]\<rparr>))
       \<and> (\<forall>item. dispatch (WillDestroyPaneItem item) (snd (destroy s))
                = (Returned, snd (destroy s)))
       \<and> (\<forall>a. dispatch (DidChangeActivePaneItem a) (snd (destroy s))
                = (Returned, (snd (destroy s))\<lparr>activeEditor := a\<rparr>))
       \<and> (\<forall>e. dispatch (DidAddSelection e) (snd (destroy s)) = (Returned, snd (destroy s)))
       \<and> (\<forall>e. dispatch (DidChangeSelectionRange e) (snd (destroy s))
                = (Returned, snd (destroy s)))
       \<and> (\<forall>v. handleSelectionDebounce (snd (dispatch (DidChangeTimeout v) (snd (destroy s))))
                = Some (d\<lparr>pending := True\<rparr>)
            \<and> handleSelectionCalls
                 (snd (dispatch DebounceTimeout
                    (snd (dispatch (DidChangeTimeout v) (snd (destroy s))))))
                = handleSelectionCalls s + 1)"
proof -
  let ?s' = "snd (destroy s)"
  have s': "?s' = s\<lparr>handleSelectionDebounce := Some (d\<lparr>pending := False\<rparr>),
             activeItemSubscription_disposed := True,
             selectionSubscription :=
               map_option (\<lambda>sub. sub\<lparr>sub_disposed := True\<rparr>) (selectionSubscription s),
             editorSubscriptions_disposed := True\<rparr>"
    and r: "fst (destroy s) = Returned"
    using assms by (simp_all add: destroy_eq)
  have sub: "\<not> selectionSubscribed e ?s'" for e
    by (simp add: s' selectionSubscribed_def split: option.split)
  have 1: "handleSelectionDebounce ?s' = Some (d\<lparr>pending := False\<rparr>)" by (simp add: s')
  have 2: "dispatch DebounceTimeout ?s' = (Returned, ?s')"
    by (simp add: debounce_timeout_eq 1)
  have 3: "dispatch (DidObserveTextEditor e) ?s'
      = (Returned, ?s'\<lparr>textEditors := textEditors s @ [e]\<rparr>)" for e
    by (simp add: s')
  have 4: "dispatch (WillDestroyPaneItem item) ?s' = (Returned, ?s')" for item
    by (simp add: s')
  have 5: "dispatch (DidChangeActivePaneItem a) ?s' = (Returned, ?s'\<lparr>activeEditor := a\<rparr>)" for a
    by (simp add: s')
  have 6: "dispatch (DidAddSelection e) ?s' = (Returned, ?s')"
    "dispatch (DidChangeSelectionRange e) ?s' = (Returned, ?s')" for e
    using sub by simp_all
  have 7: "handleSelectionDebounce (snd (dispatch (DidChangeTimeout v) ?s'))
                = Some (d\<lparr>pending := True\<rparr>)
            \<and> handleSelectionCalls
                 (snd (dispatch DebounceTimeout (snd (dispatch (DidChangeTimeout v) ?s'))))
                = handleSelectionCalls s + 1" for v
    by (simp add: debouncedHandleSelection_eq debounce_timeout_eq 1) (simp add: s')
  show ?thesis using r 1 2 3 4 5 6 7 by blast
qed

text \<open>The manager as constructed is destroyed; then the configuration value changes and the timer runs out.\<close>

theorem destroy_keeps_timeout_listener_witness:
  "handleSelectionDebounce ex_manager = Some \<lparr>wait = 250, pending = True\<rparr>
   \<and> fst (destroy ex_manager) = Returned
   \<and> handleSelectionDebounce (snd (destroy ex_manager)) = Some \<lparr>wait = 250, pending = False\<rparr>
   \<and> handleSelectionDebounce (snd (dispatch (DidChangeTimeout 100) (snd (destroy ex_manager))))
       = Some \<lparr>wait = 250, pending = True\<rparr>
   \<and> handleSelectionCalls ex_manager = 1
   \<and> handleSelectionCalls
        (snd (dispatch DebounceTimeout
           (snd (dispatch (DidChangeTimeout 100) (snd (destroy ex_manager)))))) = 2"
proof -
  have h: "handleSelectionDebounce ex_manager = Some \<lparr>wait = 250, pending = True\<rparr>"
    and c: "handleSelectionCalls ex_manager = 1"
    by (simp_all add: ex_manager_fields)
  show ?thesis
    using destroy_keeps_timeout_listener[OF h] h c by simp
qed

subsection \<open>\<open>disable\<close> and the disabled flag\<close>

lemma forEach_removeMarkers_keeps_empty:
  "layerMarkers s h = [] \<Longrightarrow> layerMarkers (snd (forEach_removeMarkers ids s)) h = []"
proof (induction ids arbitrary: s)
  case Nil
  then show ?case by simp
next
  case (Cons k ids)
  obtain out s' where r: "removeMarkers k s = (out, s')" by (cases "removeMarkers k s")
  have e: "layerMarkers s' h = []"
    using removeMarkers_keeps_empty[OF Cons.prems, of k] r by simp
  show ?case using r e Cons.IH[OF e] by (cases out) simp_all
qed

lemma forEach_removeMarkers_clears:
  "fst (forEach_removeMarkers ids s) = Returned \<Longrightarrow> k \<in> set ids \<Longrightarrow>
   map_of (editorToMarkerLayerMap s) k = Some ml \<Longrightarrow>
   layers_empty ml (snd (forEach_removeMarkers ids s))"
proof (induction ids arbitrary: s)
  case Nil
  then show ?case by simp
next
  case (Cons k' ids)
  obtain out s' where r: "removeMarkers k' s = (out, s')" by (cases "removeMarkers k' s")
  have out: "out = Returned" using Cons.prems(1) r by (cases out) simp_all
  have m: "editorToMarkerLayerMap s' = editorToMarkerLayerMap s"
    using removeMarkers_frame(1)[of k' s] r by simp
  have rest: "fst (forEach_removeMarkers ids s') = Returned"
    "snd (forEach_removeMarkers (k' # ids) s) = snd (forEach_removeMarkers ids s')"
    using Cons.prems(1) r out by simp_all
  show ?case
  proof (cases "k' = k")
    case True
    have "layers_empty ml s'"
      using removeMarkers_entry(1)[of s k ml] Cons.prems(3) r True
      by (simp add: layers_empty_def)
    then show ?thesis
      using rest(2) by (simp add: layers_empty_def forEach_removeMarkers_keeps_empty)
  next
    case False
    then have "k \<in> set ids" using Cons.prems(2) by simp
    then show ?thesis
      using Cons.IH[OF rest(1)] Cons.prems(3) m rest(2) by simp
  qed
qed

lemma disable_clears:
  assumes "fst (disable s) = Returned" and "map_of (editorToMarkerLayerMap s) k = Some ml"
  shows "layers_empty ml (snd (disable s))"
proof -
  have "k \<in> set (Object_keys (editorToMarkerLayerMap s))"
    using assms(2) by (force simp: Object_keys_def dest: map_of_SomeD)
  then show ?thesis
    using assms unfolding disable_def removeAllMarkers_def
    by (intro forEach_removeMarkers_clears) simp_all
qed

lemma toogleFoldNonSelected_disabled:
  "toogleFoldNonSelected (s\<lparr>disabled := b\<rparr>)
     = (fst (toogleFoldNonSelected s), (snd (toogleFoldNonSelected s))\<lparr>disabled := b\<rparr>)"
  by (simp add: toogleFoldNonSelected_def foldNonSelected_eq unfoldNonSelected_eq
      getActiveEditor_def currentComplement_def collectRanges_def split: option.split)

lemma emit_disabled:
  "emit eventName (s\<lparr>disabled := b\<rparr>)
     = (fst (emit eventName s), (snd (emit eventName s))\<lparr>disabled := b\<rparr>)"
  by (simp add: emit_def Let_def toogleFoldNonSelected_def foldNonSelected_eq
      unfoldNonSelected_eq getActiveEditor_def currentComplement_def collectRanges_def
      split: option.split)

lemma removeMarkers_disabled:
  "removeMarkers editorId (s\<lparr>disabled := b\<rparr>)
     = (fst (removeMarkers editorId s), (snd (removeMarkers editorId s))\<lparr>disabled := b\<rparr>)"
  by (simp add: removeMarkers_def clear_def emit_def Let_def toogleFoldNonSelected_def
      foldNonSelected_eq unfoldNonSelected_eq getActiveEditor_def currentComplement_def
      collectRanges_def split: option.split)

lemma dispatch_disabled:
  "dispatch ev (s\<lparr>disabled := b\<rparr>) = (fst (dispatch ev s), (snd (dispatch ev s))\<lparr>disabled := b\<rparr>)"
proof (cases ev)
  case (WillDestroyPaneItem item)
  show ?thesis
  proof (cases item)
    case (TextEditor e)
    show ?thesis
      unfolding WillDestroyPaneItem TextEditor dispatch_WillDestroyPaneItem_TextEditor
      by (simp add: removeMarkers_disabled)
  next
    case OtherItem
    then show ?thesis using WillDestroyPaneItem by simp
  qed
next
  case (DidChangeActivePaneItem a)
  then show ?thesis
    by (simp add: Let_def subscribeToActiveTextEditor_eq dispose_selectionSubscription_eq
        debouncedHandleSelection_eq getActiveEditor_def split: option.split)
qed (simp_all add: Let_def setupMarkerLayers_eq debouncedHandleSelection_eq
      debounce_timeout_eq selectionSubscribed_def split: option.split)

lemma forEach_removeMarkers_returns:
  "\<not> (enableAutofold s \<and> getActiveEditor s = None) \<Longrightarrow>
   fst (forEach_removeMarkers ids s) = Returned"
proof (induction ids arbitrary: s)
  case Nil
  show ?case by simp
next
  case (Cons k ids)
  obtain out s' where r: "removeMarkers k s = (out, s')" by (cases "removeMarkers k s")
  have out: "out = Returned"
    using removeMarkers_throws[of k s] Cons.prems r by (simp split: if_splits)
  have "enableAutofold s' = enableAutofold s" "getActiveEditor s' = getActiveEditor s"
    using removeMarkers_frame(3,11)[of k s] r by (simp_all add: getActiveEditor_def)
  then have "fst (forEach_removeMarkers ids s') = Returned"
    using Cons.prems by (intro Cons.IH) simp
  then show ?case using r out by simp
qed

lemma disable_returns:
  "\<not> (enableAutofold s \<and> getActiveEditor s = None) \<Longrightarrow> fst (disable s) = Returned"
  unfolding disable_def removeAllMarkers_def
  by (rule forEach_removeMarkers_returns) (simp add: getActiveEditor_def)

lemma Object_keys_entries:
  "k \<in> set (Object_keys m) \<Longrightarrow> map_of m k \<noteq> None"
  by (auto simp: Object_keys_def map_of_eq_None_iff)

lemma Object_keys_Nil: "Object_keys m = [] \<longleftrightarrow> m = []"
  by (simp add: Object_keys_def) (metis length_0_conv length_sort remdups_eq_nil_iff map_is_Nil_conv)

lemma forEach_removeMarkers_throws:
  assumes "enableAutofold s" "getActiveEditor s = None"
    and "ids \<noteq> []" "map_of (editorToMarkerLayerMap s) (hd ids) \<noteq> None"
  shows "forEach_removeMarkers ids s = removeMarkers (hd ids) s"
    and "fst (forEach_removeMarkers ids s) = Threw TypeError"
proof -
  obtain k ks where ids: "ids = k # ks" using assms(3) by (cases ids) auto
  obtain out s' where r: "removeMarkers k s = (out, s')" by (cases "removeMarkers k s")
  have out: "out = Threw TypeError"
    using removeMarkers_throws[of k s] assms ids r by simp
  show "forEach_removeMarkers ids s = removeMarkers (hd ids) s"
    "fst (forEach_removeMarkers ids s) = Threw TypeError"
    using ids r out by simp_all
qed

lemma disable_throws_iff:
  "fst (disable s) = Threw TypeError \<longleftrightarrow>
     editorToMarkerLayerMap s \<noteq> [] \<and> enableAutofold s \<and> getActiveEditor s = None"
proof (cases "editorToMarkerLayerMap s \<noteq> [] \<and> enableAutofold s \<and> getActiveEditor s = None")
  case True
  let ?s = "s\<lparr>disabled := True\<rparr>"
  let ?ids = "Object_keys (editorToMarkerLayerMap ?s)"
  have ne: "?ids \<noteq> []" using True by (simp add: Object_keys_Nil)
  then have "hd ?ids \<in> set ?ids" by simp
  then have "map_of (editorToMarkerLayerMap ?s) (hd ?ids) \<noteq> None"
    by (rule Object_keys_entries)
  then have "fst (forEach_removeMarkers ?ids ?s) = Threw TypeError"
    using True ne by (intro forEach_removeMarkers_throws(2)) (simp_all add: getActiveEditor_def)
  then show ?thesis using True by (simp add: disable_def removeAllMarkers_def)
next
  case False
  show ?thesis
  proof (cases "enableAutofold s \<and> getActiveEditor s = None")
    case True
    then have "editorToMarkerLayerMap s = []" using False by simp
    then show ?thesis by (simp add: disable_def removeAllMarkers_def Object_keys_def)
  next
    case False
    then have "fst (disable s) = Returned" by (rule disable_returns)
    then show ?thesis using False by simp
  qed
qed

lemma ex_autofold_two_editors_fields:
  "editorToMarkerLayerMap ex_autofold_two_editors
     = [(9, \<lparr>visibleMarkerLayer = 0, selectedMarkerLayer = 1\<rparr>),
        (10, \<lparr>visibleMarkerLayer = 2, selectedMarkerLayer = 3\<rparr>)]"
  "enableAutofold ex_autofold_two_editors"
  "activeEditor ex_autofold_two_editors = None"
  "layerMarkers ex_autofold_two_editors 0
     = [\<lparr>start = \<lparr>row = 0, column = 0\<rparr>, endp = \<lparr>row = 0, column = 3\<rparr>\<rparr>]"
  "layerMarkers ex_autofold_two_editors 2
     = [\<lparr>start = \<lparr>row = 1, column = 0\<rparr>, endp = \<lparr>row = 1, column = 3\<rparr>\<rparr>]"
  "handleSelectionDebounce ex_autofold_two_editors = Some \<lparr>wait = 250, pending = True\<rparr>"
  by (simp_all add: ex_autofold_two_editors_def new_SelectionManager_def ex_workspace_def
      setupMarkerLayers_eq enable_def debouncedHandleSelection_eq
      subscribeToActiveTextEditor_eq dispose_selectionSubscription_eq getActiveEditor_def)

lemma ex_autofold_two_editors_ok: "registry_ok ex_autofold_two_editors"
proof -
  have "registry_ok (new_SelectionManager (ex_workspace\<lparr>textEditors := [9, 10], activeEditor := None\<rparr>))"
    by (rule registry_ok_new)
  then show ?thesis by (simp add: ex_autofold_two_editors_def registry_ok_def)
qed

lemma ex_autofold_two_editors_disable:
  "fst (disable ex_autofold_two_editors) = Threw TypeError"
  "layerMarkers (snd (disable ex_autofold_two_editors)) 0 = []"
  "layerMarkers (snd (disable ex_autofold_two_editors)) 2
     = [\<lparr>start = \<lparr>row = 1, column = 0\<rparr>, endp = \<lparr>row = 1, column = 3\<rparr>\<rparr>]"
proof -
  let ?s = "ex_autofold_two_editors\<lparr>disabled := True\<rparr>"
  have k: "Object_keys (editorToMarkerLayerMap ?s) = [9, 10]"
    by (simp add: ex_autofold_two_editors_fields Object_keys_def)
  have m: "map_of (editorToMarkerLayerMap ?s) 9
      = Some \<lparr>visibleMarkerLayer = 0, selectedMarkerLayer = 1\<rparr>"
    by (simp add: ex_autofold_two_editors_fields)
  have d: "disable ex_autofold_two_editors = removeMarkers 9 ?s"
    unfolding disable_def removeAllMarkers_def k
    using forEach_removeMarkers_throws(1)[of ?s "[9, 10]"] m
    by (simp add: ex_autofold_two_editors_fields getActiveEditor_def)
  show "fst (disable ex_autofold_two_editors) = Threw TypeError"
    unfolding d using m
    by (simp add: removeMarkers_throws ex_autofold_two_editors_fields getActiveEditor_def)
  show "layerMarkers (snd (disable ex_autofold_two_editors)) 0 = []"
    "layerMarkers (snd (disable ex_autofold_two_editors)) 2
     = [\<lparr>start = \<lparr>row = 1, column = 0\<rparr>, endp = \<lparr>row = 1, column = 3\<rparr>\<rparr>]"
    unfolding d by (simp_all add: removeMarkers_entry(1)[OF m] ex_autofold_two_editors_fields)
qed

text \<open>
  C10. No host event reads the flag: the outcome of a dispatch and the state after it are
  the same for either value, but for the flag itself. A selection event on the subscribed
  editor, a change of the active pane item and a change of the configuration value each
  call \<open>debouncedHandleSelection\<close>, which leaves a call pending, and
  \<open>subscribeToActiveTextEditor\<close> calls the search model at once when there is an active
  editor. \<open>disable\<close> sets the flag and leaves the wrapper as it is, so a call that was
  pending reaches the search model when the timer runs out. When \<open>disable\<close> returns it
  has emptied the layers of every registry entry. But it does not always do so: it throws
  exactly when the registry is not empty, \<open>enableAutofold\<close> is set and there is no active
  editor, since the emission of the first \<open>removeMarkers\<close> runs the autofold listener,
  whose toggle throws a TypeError; the entries after the first then keep their markers.
\<close>

theorem disabled_flag_does_not_gate_pipeline:
  "disabled (snd (disable s))
   \<and> handleSelectionDebounce (snd (disable s)) = handleSelectionDebounce s
   \<and> (fst (disable s) = Returned \<longrightarrow>
        (\<forall>e ml. map_of (editorToMarkerLayerMap s) e = Some ml \<longrightarrow>
           layers_empty ml (snd (disable s))))
   \<and> (fst (disable s) = Threw TypeError \<longleftrightarrow>
        editorToMarkerLayerMap s \<noteq> [] \<and> enableAutofold s \<and> getActiveEditor s = None)
   \<and> (\<forall>d. handleSelectionDebounce s = Some d \<and> pending d \<longrightarrow>
          handleSelectionCalls (snd (dispatch DebounceTimeout (snd (disable s))))
            = handleSelectionCalls s + 1)
   \<and> (\<forall>ev b. dispatch ev (s\<lparr>disabled := b\<rparr>)
          = (fst (dispatch ev s), (snd (dispatch ev s))\<lparr>disabled := b\<rparr>))
   \<and> (\<forall>e. selectionSubscribed e s \<longrightarrow>
          dispatch (DidAddSelection e) s = (Returned, debouncedHandleSelection s)
        \<and> dispatch (DidChangeSelectionRange e) s = (Returned, debouncedHandleSelection s))
   \<and> (\<forall>a. \<not> activeItemSubscription_disposed s \<longrightarrow>
          dispatch (DidChangeActivePaneItem a) s
            = (Returned,
               subscribeToActiveTextEditor (debouncedHandleSelection (s\<lparr>activeEditor := a\<rparr>))))
   \<and> (\<forall>v. dispatch (DidChangeTimeout v) s
            = (Returned, debouncedHandleSelection (s\<lparr>config_timeout := v\<rparr>)))
   \<and> map_option pending (handleSelectionDebounce (debouncedHandleSelection s)) = Some True
   \<and> (getActiveEditor s \<noteq> None \<longrightarrow>
        handleSelectionCalls (subscribeToActiveTextEditor s) = handleSelectionCalls s + 1)
   \<and> (\<forall>b. debouncedHandleSelection (s\<lparr>disabled := b\<rparr>)
            = (debouncedHandleSelection s)\<lparr>disabled := b\<rparr>
          \<and> subscribeToActiveTextEditor (s\<lparr>disabled := b\<rparr>)
            = (subscribeToActiveTextEditor s)\<lparr>disabled := b\<rparr>)"
proof -
  have 1: "disabled (snd (disable s))"
    "handleSelectionDebounce (snd (disable s)) = handleSelectionDebounce s"
    by simp_all
  have 2: "layers_empty ml (snd (disable s))"
    if "fst (disable s) = Returned" "map_of (editorToMarkerLayerMap s) e = Some ml" for e ml
    using that by (rule disable_clears)
  have 3: "handleSelectionCalls (snd (dispatch DebounceTimeout (snd (disable s))))
            = handleSelectionCalls s + 1"
    if "handleSelectionDebounce s = Some d \<and> pending d" for d
    using that by (simp add: debounce_timeout_eq)
  have 4: "dispatch (DidChangeActivePaneItem a) s
            = (Returned,
               subscribeToActiveTextEditor (debouncedHandleSelection (s\<lparr>activeEditor := a\<rparr>)))"
    if "\<not> activeItemSubscription_disposed s" for a
    using that by (simp add: Let_def)
  have 5: "map_option pending (handleSelectionDebounce (debouncedHandleSelection s)) = Some True"
    by (simp add: debouncedHandleSelection_eq split: option.split)
  have 6: "getActiveEditor s \<noteq> None \<longrightarrow>
        handleSelectionCalls (subscribeToActiveTextEditor s) = handleSelectionCalls s + 1"
    by (auto simp: subscribeToActiveTextEditor_eq)
  have 7: "debouncedHandleSelection (s\<lparr>disabled := b\<rparr>)
            = (debouncedHandleSelection s)\<lparr>disabled := b\<rparr>
          \<and> subscribeToActiveTextEditor (s\<lparr>disabled := b\<rparr>)
            = (subscribeToActiveTextEditor s)\<lparr>disabled := b\<rparr>" for b
    by (simp add: debouncedHandleSelection_eq subscribeToActiveTextEditor_eq
        dispose_selectionSubscription_eq getActiveEditor_def split: option.split)
  have 8: "dispatch (DidAddSelection e) s = (Returned, debouncedHandleSelection s)
        \<and> dispatch (DidChangeSelectionRange e) s = (Returned, debouncedHandleSelection s)"
    if "selectionSubscribed e s" for e
    using that by simp
  have 9: "dispatch (DidChangeTimeout v) s
            = (Returned, debouncedHandleSelection (s\<lparr>config_timeout := v\<rparr>))" for v
    by simp
  note 10 = disable_throws_iff[of s]
  show ?thesis
    using 1 2 3 4 5 6 7 8 9 10 dispatch_disabled by blast
qed

text \<open>
  The highlighted example is disabled while a call is pending; and the manager of the two
  editors is disabled with the autofold hook on and no active editor: \<open>disable\<close> throws
  after it has emptied the layers of editor 9, and the marker of editor 10 stays.
\<close>

theorem disabled_flag_does_not_gate_pipeline_witness:
  "fst (disable ex_highlighted) = Returned
   \<and> map_of (editorToMarkerLayerMap ex_highlighted) 7
       = Some \<lparr>visibleMarkerLayer = 0, selectedMarkerLayer = 1\<rparr>
   \<and> handleSelectionDebounce ex_highlighted = Some \<lparr>wait = 250, pending = True\<rparr>
   \<and> pending \<lparr>wait = 250, pending = True\<rparr>
   \<and> selectionSubscribed 7 (snd (disable ex_highlighted))
   \<and> \<not> activeItemSubscription_disposed (snd (disable ex_highlighted))
   \<and> getActiveEditor (snd (disable ex_highlighted)) \<noteq> None
   \<and> disabled (snd (disable ex_highlighted))
   \<and> layers_empty \<lparr>visibleMarkerLayer = 0, selectedMarkerLayer = 1\<rparr> (snd (disable ex_highlighted))
   \<and> handleSelectionDebounce (snd (disable ex_highlighted)) = Some \<lparr>wait = 250, pending = True\<rparr>
   \<and> handleSelectionCalls (snd (dispatch DebounceTimeout (snd (disable ex_highlighted))))
       = handleSelectionCalls ex_highlighted + 1
   \<and> dispatch (DidAddSelection 7) (snd (disable ex_highlighted))
       = (Returned, debouncedHandleSelection (snd (disable ex_highlighted)))
   \<and> dispatch (DidChangeActivePaneItem (Some 7)) (snd (disable ex_highlighted))
       = (Returned, subscribeToActiveTextEditor (debouncedHandleSelection
            ((snd (disable ex_highlighted))\<lparr>activeEditor := Some 7\<rparr>)))
   \<and> handleSelectionCalls (subscribeToActiveTextEditor (snd (disable ex_highlighted)))
       = handleSelectionCalls (snd (disable ex_highlighted)) + 1
   \<and> registry_ok ex_autofold_two_editors
   \<and> editorToMarkerLayerMap ex_autofold_two_editors \<noteq> []
   \<and> enableAutofold ex_autofold_two_editors
   \<and> getActiveEditor ex_autofold_two_editors = None
   \<and> map_of (editorToMarkerLayerMap ex_autofold_two_editors) 10
       = Some \<lparr>visibleMarkerLayer = 2, selectedMarkerLayer = 3\<rparr>
   \<and> fst (disable ex_autofold_two_editors) = Threw TypeError
   \<and> disabled (snd (disable ex_autofold_two_editors))
   \<and> handleSelectionDebounce (snd (disable ex_autofold_two_editors))
       = Some \<lparr>wait = 250, pending = True\<rparr>
   \<and> layerMarkers (snd (disable ex_autofold_two_editors)) 0 = []
   \<and> layerMarkers (snd (disable ex_autofold_two_editors)) 2
       = [\<lparr>start = \<lparr>row = 1, column = 0\<rparr>, endp = \<lparr>row = 1, column = 3\<rparr>\<rparr>]
   \<and> \<not> layers_empty \<lparr>visibleMarkerLayer = 2, selectedMarkerLayer = 3\<rparr>
         (snd (disable ex_autofold_two_editors))"
proof -
  let ?d = "snd (disable ex_highlighted)"
  let ?x = "ex_autofold_two_editors"
  have x: "editorToMarkerLayerMap ?x \<noteq> []" "enableAutofold ?x" "getActiveEditor ?x = None"
    "map_of (editorToMarkerLayerMap ?x) 10
       = Some \<lparr>visibleMarkerLayer = 2, selectedMarkerLayer = 3\<rparr>"
    "handleSelectionDebounce ?x = Some \<lparr>wait = 250, pending = True\<rparr>"
    by (simp_all add: ex_autofold_two_editors_fields getActiveEditor_def)
  note u = disabled_flag_does_not_gate_pipeline[of ?x]
  have x1: "fst (disable ?x) = Threw TypeError" using u x(1-3) by blast
  have x2: "disabled (snd (disable ?x))"
    "handleSelectionDebounce (snd (disable ?x)) = handleSelectionDebounce ?x"
    using u by blast+
  have x3: "\<not> layers_empty \<lparr>visibleMarkerLayer = 2, selectedMarkerLayer = 3\<rparr> (snd (disable ?x))"
    by (simp add: layers_empty_def ex_autofold_two_editors_disable)
  have r: "fst (disable ex_highlighted) = Returned"
    by (rule disable_returns) (simp add: ex_highlighted_def ex_manager_fields)
  have m: "map_of (editorToMarkerLayerMap ex_highlighted) 7
       = Some \<lparr>visibleMarkerLayer = 0, selectedMarkerLayer = 1\<rparr>"
    by (simp add: ex_highlighted_fields)
  have h: "handleSelectionDebounce ex_highlighted = Some \<lparr>wait = 250, pending = True\<rparr>"
    by (simp add: ex_highlighted_def ex_manager_fields)
  have s: "selectionSubscribed 7 ?d" "\<not> activeItemSubscription_disposed ?d"
    "getActiveEditor ?d \<noteq> None"
    by (simp_all add: selectionSubscribed_def getActiveEditor_def ex_highlighted_def
        ex_manager_fields)
  note t = disabled_flag_does_not_gate_pipeline[of ex_highlighted]
  note t' = disabled_flag_does_not_gate_pipeline[of ?d]
  have 1: "disabled ?d"
    "handleSelectionDebounce ?d = handleSelectionDebounce ex_highlighted"
    using t by blast+
  have 2: "layers_empty \<lparr>visibleMarkerLayer = 0, selectedMarkerLayer = 1\<rparr> ?d"
    using t r m by blast
  have 3: "handleSelectionCalls (snd (dispatch DebounceTimeout ?d))
       = handleSelectionCalls ex_highlighted + 1"
    using t h by simp
  have 4: "dispatch (DidAddSelection 7) ?d = (Returned, debouncedHandleSelection ?d)"
    using t' s(1) by blast
  have 5: "dispatch (DidChangeActivePaneItem (Some 7)) ?d
       = (Returned, subscribeToActiveTextEditor (debouncedHandleSelection
            (?d\<lparr>activeEditor := Some 7\<rparr>)))"
    using t' s(2) by blast
  have 6: "handleSelectionCalls (subscribeToActiveTextEditor ?d) = handleSelectionCalls ?d + 1"
    using t' s(3) by blast
  show ?thesis
    using r m h s 1 2 3 4 5 6 x x1 x2 x3 ex_autofold_two_editors_ok
      ex_autofold_two_editors_disable(2,3)
    by simp
qed

end
